theory Spec2Isabelle
  imports Main "HOL-Library.Word" "HOL-Library.Sublist"
begin

unbundle bit_operations_syntax

section \<open>CertForge: data model\<close>

text \<open>
  A shallow embedding of \<^verbatim>\<open>certforge.go\<close>. Go strings are byte strings and are
  modelled as \<^typ>\<open>string\<close>; byte slices are lists of 8-bit words. The conversions
  \<^verbatim>\<open>[]byte(s)\<close> and \<^verbatim>\<open>string(b)\<close> copy the bytes unchanged. Values of Go's
  \<^verbatim>\<open>int\<close> are integers of the 64-bit range; where the source computes in 64 bits
  with wrap-around (the validity duration) the model uses 64-bit words.
\<close>

type_synonym byte = "8 word"

definition bytes_of_string :: "string \<Rightarrow> byte list" where
  "bytes_of_string s = map of_char s"

definition string_of_bytes :: "byte list \<Rightarrow> string" where
  "string_of_bytes b = map (\<lambda>w. char_of (unat w)) b"

text \<open>
  \<^verbatim>\<open>pkix.Name\<close>, restricted to the fields that \<^verbatim>\<open>main\<close> fills and
  \<^verbatim>\<open>formatName\<close> reads.
\<close>

record Name =
  CommonName :: string
  Organization :: "string list"
  OrganizationalUnit :: "string list"
  Country :: "string list"
  Province :: "string list"
  Locality :: "string list"

text \<open>
  \<^verbatim>\<open>x509.KeyUsage\<close> is a bit set on \<^verbatim>\<open>int\<close>, the constants are
  \<^verbatim>\<open>1 << iota\<close>; \<^verbatim>\<open>x509.ExtKeyUsage\<close> is an enumeration.
\<close>

definition KeyUsageDigitalSignature :: int where "KeyUsageDigitalSignature = 1"
definition KeyUsageContentCommitment :: int where "KeyUsageContentCommitment = 2"
definition KeyUsageKeyEncipherment :: int where "KeyUsageKeyEncipherment = 4"
definition KeyUsageDataEncipherment :: int where "KeyUsageDataEncipherment = 8"
definition KeyUsageKeyAgreement :: int where "KeyUsageKeyAgreement = 16"
definition KeyUsageCertSign :: int where "KeyUsageCertSign = 32"
definition KeyUsageCRLSign :: int where "KeyUsageCRLSign = 64"
definition KeyUsageEncipherOnly :: int where "KeyUsageEncipherOnly = 128"
definition KeyUsageDecipherOnly :: int where "KeyUsageDecipherOnly = 256"

datatype ExtKeyUsage =
    ExtKeyUsageAny
  | ExtKeyUsageServerAuth
  | ExtKeyUsageClientAuth
  | ExtKeyUsageCodeSigning
  | ExtKeyUsageEmailProtection
  | ExtKeyUsageIPSECEndSystem
  | ExtKeyUsageIPSECTunnel
  | ExtKeyUsageIPSECUser
  | ExtKeyUsageTimeStamping
  | ExtKeyUsageOCSPSigning

text \<open>
  \<^verbatim>\<open>time.Time\<close> values near the present are modelled as nanoseconds on an unbounded
  time line; \<^verbatim>\<open>time.Duration\<close> is a signed 64-bit count of nanoseconds whose
  arithmetic wraps around.
\<close>

type_synonym Time = int
type_synonym Duration = "64 word"

definition Hour :: Duration where
  "Hour = 3600000000000"

definition Time_Add :: "Time \<Rightarrow> Duration \<Rightarrow> Time" where
  "Time_Add t d = t + sint d"

text \<open>\<^verbatim>\<open>x509.Certificate\<close>, the fields the tool sets or prints.\<close>

record Certificate =
  SerialNumber :: int
  Subject :: Name
  Issuer :: Name
  NotBefore :: Time
  NotAfter :: Time
  KeyUsage :: int
  ExtKeyUsage :: "ExtKeyUsage list"
  BasicConstraintsValid :: bool
  DNSNames :: "string list"

section \<open>Helpers of the source and of the Go library\<close>

text \<open>\<^verbatim>\<open>contains\<close> (lines 30-37): linear search with an early return.\<close>

fun contains :: "string list \<Rightarrow> string \<Rightarrow> bool" where
  "contains [] str = False"
| "contains (item # items) str = (if item = str then True else contains items str)"

text \<open>\<^verbatim>\<open>strings.Contains\<close>: \<^verbatim>\<open>substr\<close> occurs somewhere within \<^verbatim>\<open>s\<close>.\<close>

fun strings_Contains :: "string \<Rightarrow> string \<Rightarrow> bool" where
  "strings_Contains [] substr = (substr = [])"
| "strings_Contains (c # s) substr = (prefix substr (c # s) \<or> strings_Contains s substr)"

text \<open>\<^verbatim>\<open>strings.Join\<close>.\<close>

fun strings_Join :: "string list \<Rightarrow> string \<Rightarrow> string" where
  "strings_Join [] sep = []"
| "strings_Join [x] sep = x"
| "strings_Join (x # y # ys) sep = x @ sep @ strings_Join (y # ys) sep"

text \<open>
  \<^verbatim>\<open>fmt.Sscanf(str, "%d", &v)\<close> on a string without leading white space (the
  callers pass the result of \<^verbatim>\<open>strings.TrimSpace\<close>): an optional sign, then a
  non-empty run of the scanner's decimal digit characters (which include the underscore),
  handed to \<^verbatim>\<open>strconv.ParseInt(tok, 10, 64)\<close>; input after the token is left
  unread. \<open>None\<close> stands for a failed scan, which leaves the variable as it was.
\<close>

definition is_decimalDigit :: "char \<Rightarrow> bool" where
  "is_decimalDigit c = (c \<in> set ''0123456789_'')"

fun decimal_value :: "int \<Rightarrow> string \<Rightarrow> int" where
  "decimal_value acc [] = acc"
| "decimal_value acc (c # cs) = decimal_value (acc * 10 + (of_char c - 48)) cs"

definition strconv_ParseInt :: "bool \<Rightarrow> string \<Rightarrow> int option" where
  "strconv_ParseInt neg digits =
     (if CHR ''_'' \<in> set digits then None
      else let n = (if neg then - decimal_value 0 digits else decimal_value 0 digits)
           in if n < - (2 ^ 63) \<or> 2 ^ 63 - 1 < n then None else Some n)"

definition Sscanf_d :: "string \<Rightarrow> int option" where
  "Sscanf_d str =
     (let (neg, r) = (case str of
                        [] \<Rightarrow> (False, [])
                      | c # cs \<Rightarrow> if c = CHR ''-'' then (True, cs)
                                  else if c = CHR ''+'' then (False, cs)
                                  else (False, str));
          tok = takeWhile is_decimalDigit r
      in if tok = [] then None else strconv_ParseInt neg tok)"

section \<open>Input collection in main\<close>




text \<open>
  Self-signed preference and validity period (lines 427-450). \<open>selfSigned\<close> and
  \<open>validDaysStr\<close> are the trimmed answers to the two prompts; they are read only on
  the paths that ask. The result is \<^verbatim>\<open>(createSelfsigned, validDays)\<close>.
\<close>

definition validity_input :: "bool \<Rightarrow> int \<Rightarrow> string \<Rightarrow> string \<Rightarrow> bool \<times> int" where
  "validity_input selfSignedFlag daysFlag selfSigned validDaysStr =
     (let createSelfsigned =
            (if \<not> selfSignedFlag then selfSigned = ''y'' \<or> selfSigned = ''yes''
             else selfSignedFlag);
          validDays =
            (if createSelfsigned \<and> \<not> selfSignedFlag then
               (if validDaysStr \<noteq> [] then
                  (let validDays = (case Sscanf_d validDaysStr of None \<Rightarrow> daysFlag | Some n \<Rightarrow> n)
                   in if validDays \<le> 0 then 365 else validDays)
                else daysFlag)
             else daysFlag)
      in (createSelfsigned, validDays))"

section \<open>Subject and certificate template in main\<close>

text \<open>The subject (lines 479-486): every list field is a one-element slice.\<close>

definition subj :: "string \<Rightarrow> string \<Rightarrow> string \<Rightarrow> string \<Rightarrow> string \<Rightarrow> string \<Rightarrow> Name" where
  "subj commonName organization organizationalUnit country state locality =
     \<lparr> CommonName = commonName,
       Organization = [organization],
       OrganizationalUnit = [organizationalUnit],
       Country = [country],
       Province = [state],
       Locality = [locality] \<rparr>"

definition emptyName :: Name where
  "emptyName = \<lparr> CommonName = [], Organization = [], OrganizationalUnit = [],
                 Country = [], Province = [], Locality = [] \<rparr>"

text \<open>
  The validity window (lines 587-588):
  \<^verbatim>\<open>notBefore.Add(time.Duration(validDays) * 24 * time.Hour)\<close>, a 64-bit product.
\<close>

definition validity_duration :: "int \<Rightarrow> Duration" where
  "validity_duration validDays = word_of_int validDays * 24 * Hour"

definition notAfter_of :: "Time \<Rightarrow> int \<Rightarrow> Time" where
  "notAfter_of notBefore validDays = Time_Add notBefore (validity_duration validDays)"

text \<open>
  The certificate template (lines 597-615). \<open>now\<close> is the value of
  \<^verbatim>\<open>time.Now()\<close> and \<open>serialNumber\<close> the value drawn from \<^verbatim>\<open>rand.Int\<close>.
\<close>

definition certTemplate ::
  "int \<Rightarrow> Name \<Rightarrow> Time \<Rightarrow> int \<Rightarrow> string list \<Rightarrow> string \<Rightarrow> Certificate" where
  "certTemplate serialNumber sbj now validDays sans commonName =
     (let notBefore = now;
          notAfter = notAfter_of notBefore validDays;
          t = \<lparr> SerialNumber = serialNumber,
                Subject = sbj,
                Issuer = emptyName,
                NotBefore = notBefore,
                NotAfter = notAfter,
                KeyUsage = KeyUsageKeyEncipherment OR KeyUsageDigitalSignature,
                ExtKeyUsage = [ExtKeyUsageServerAuth],
                BasicConstraintsValid = True,
                DNSNames = [] \<rparr>;
          t = (if length sans > 0 then t\<lparr>DNSNames := sans\<rparr> else t);
          t = (if \<not> contains (DNSNames t) commonName \<and> strings_Contains commonName ''.''
               then t\<lparr>DNSNames := DNSNames t @ [commonName]\<rparr> else t)
      in t)"

text \<open>
  \<^verbatim>\<open>x509.CreateCertificate(rand, template, parent, pub, priv)\<close> followed by parsing:
  the certificate carries the template's fields and the parent's subject as its issuer.
\<close>

definition x509_CreateCertificate :: "Certificate \<Rightarrow> Certificate \<Rightarrow> Certificate" where
  "x509_CreateCertificate template parent = template\<lparr>Issuer := Subject parent\<rparr>"

definition selfSignedCertificate ::
  "int \<Rightarrow> Name \<Rightarrow> Time \<Rightarrow> int \<Rightarrow> string list \<Rightarrow> string \<Rightarrow> Certificate" where
  "selfSignedCertificate serialNumber sbj now validDays sans commonName =
     (let t = certTemplate serialNumber sbj now validDays sans commonName
      in x509_CreateCertificate t t)"

section \<open>The decoder's formatting\<close>

text \<open>
  \<^verbatim>\<open>formatName\<close> (lines 234-262). \<open>formatName_parts\<close> is the slice
  \<^verbatim>\<open>parts\<close> as it stands before the final join.
\<close>

definition formatName_parts :: "Name \<Rightarrow> string list" where
  "formatName_parts name =
     (let parts = [];
          parts = (if CommonName name \<noteq> [] then parts @ [''CN='' @ CommonName name] else parts);
          parts = foldl (\<lambda>parts org. parts @ [''O='' @ org]) parts (Organization name);
          parts = foldl (\<lambda>parts ou. parts @ [''OU='' @ ou]) parts (OrganizationalUnit name);
          parts = foldl (\<lambda>parts country. parts @ [''C='' @ country]) parts (Country name);
          parts = foldl (\<lambda>parts province. parts @ [''ST='' @ province]) parts (Province name);
          parts = foldl (\<lambda>parts locality. parts @ [''L='' @ locality]) parts (Locality name)
      in parts)"

definition formatName :: "Name \<Rightarrow> string" where
  "formatName name = strings_Join (formatName_parts name) '', ''"

text \<open>
  The parts of \<^verbatim>\<open>printCertificateInfo\<close> (lines 113-166) that interpret the
  certificate: the self-signed flag, where \<open>name_String\<close> stands for the library's
  \<^verbatim>\<open>pkix.Name.String\<close>, and the printed key-usage and extended-key-usage lines.
\<close>

definition isSelfSigned :: "(Name \<Rightarrow> string) \<Rightarrow> Certificate \<Rightarrow> bool" where
  "isSelfSigned name_String cert = (name_String (Subject cert) = name_String (Issuer cert))"

definition keyUsage_lines :: "int \<Rightarrow> string list" where
  "keyUsage_lines ku =
     (if ku AND KeyUsageDigitalSignature \<noteq> 0 then [''Digital Signature''] else []) @
     (if ku AND KeyUsageContentCommitment \<noteq> 0 then [''Content Commitment''] else []) @
     (if ku AND KeyUsageKeyEncipherment \<noteq> 0 then [''Key Encipherment''] else []) @
     (if ku AND KeyUsageDataEncipherment \<noteq> 0 then [''Data Encipherment''] else []) @
     (if ku AND KeyUsageKeyAgreement \<noteq> 0 then [''Key Agreement''] else []) @
     (if ku AND KeyUsageCertSign \<noteq> 0 then [''Certificate Sign''] else []) @
     (if ku AND KeyUsageCRLSign \<noteq> 0 then [''CRL Sign''] else []) @
     (if ku AND KeyUsageEncipherOnly \<noteq> 0 then [''Encipher Only''] else []) @
     (if ku AND KeyUsageDecipherOnly \<noteq> 0 then [''Decipher Only''] else [])"

fun extKeyUsage_line :: "ExtKeyUsage \<Rightarrow> string list" where
  "extKeyUsage_line ExtKeyUsageServerAuth = [''Server Authentication'']"
| "extKeyUsage_line ExtKeyUsageClientAuth = [''Client Authentication'']"
| "extKeyUsage_line ExtKeyUsageCodeSigning = [''Code Signing'']"
| "extKeyUsage_line ExtKeyUsageEmailProtection = [''Email Protection'']"
| "extKeyUsage_line ExtKeyUsageTimeStamping = [''Time Stamping'']"
| "extKeyUsage_line ExtKeyUsageOCSPSigning = [''OCSP Signing'']"
| "extKeyUsage_line _ = []"

definition extKeyUsage_lines :: "ExtKeyUsage list \<Rightarrow> string list" where
  "extKeyUsage_lines usages = concat (map extKeyUsage_line usages)"

section \<open>The Go library's DER encoding and decoding (encoding/asn1)\<close>

text \<open>
  The tool builds and walks the SAN extension with \<^verbatim>\<open>asn1.Marshal\<close> and
  \<^verbatim>\<open>asn1.Unmarshal\<close> on values of type \<^verbatim>\<open>asn1.RawValue\<close> and
  \<^verbatim>\<open>[]asn1.RawValue\<close>. This section embeds the library functions on that path, under
  their own names. Offsets and lengths index byte slices and are natural numbers; errors
  are values of \<open>asn1_error\<close>, with the library's messages.
\<close>

datatype asn1_error = SyntaxError string | StructuralError string | InternalError string

definition ClassUniversal :: int where "ClassUniversal = 0"
definition TagSequence :: int where "TagSequence = 16"

record tagAndLength =
  t_class :: int
  t_tag :: int
  t_length :: nat
  t_isCompound :: bool

record RawValue =
  Class :: int
  Tag :: int
  IsCompound :: bool
  Bytes :: "byte list"
  FullBytes :: "byte list"

subsection \<open>Encoding\<close>

text \<open>
  \<^verbatim>\<open>base128IntLength\<close> and \<^verbatim>\<open>appendBase128Int\<close> write a tag number of 31 or more,
  \<^verbatim>\<open>lengthLength\<close> and \<^verbatim>\<open>appendLength\<close> the octets of a length of 128 or more,
  most significant first; \<^verbatim>\<open>byte(x)\<close> keeps the low eight bits.
\<close>

fun base128IntLength_loop :: "nat \<Rightarrow> nat" where
  "base128IntLength_loop i = (if i > 0 then 1 + base128IntLength_loop (i div 128) else 0)"

declare base128IntLength_loop.simps [simp del]

definition base128IntLength :: "nat \<Rightarrow> nat" where
  "base128IntLength n = (if n = 0 then 1 else base128IntLength_loop n)"

fun appendBase128Int_loop :: "byte list \<Rightarrow> nat \<Rightarrow> nat \<Rightarrow> byte list" where
  "appendBase128Int_loop dst n 0 = dst"
| "appendBase128Int_loop dst n (Suc i) =
     (let o1 = (of_nat (n div 2 ^ (i * 7)) :: byte) AND 0x7f;
          o2 = (if i \<noteq> 0 then o1 OR 0x80 else o1)
      in appendBase128Int_loop (dst @ [o2]) n i)"

definition appendBase128Int :: "byte list \<Rightarrow> nat \<Rightarrow> byte list" where
  "appendBase128Int dst n = appendBase128Int_loop dst n (base128IntLength n)"

fun lengthLength :: "nat \<Rightarrow> nat" where
  "lengthLength i = (if i > 255 then 1 + lengthLength (i div 256) else 1)"

declare lengthLength.simps [simp del]

fun appendLength_loop :: "byte list \<Rightarrow> nat \<Rightarrow> nat \<Rightarrow> byte list" where
  "appendLength_loop dst i 0 = dst"
| "appendLength_loop dst i (Suc n) = appendLength_loop (dst @ [of_nat (i div 2 ^ (n * 8))]) i n"

definition appendLength :: "byte list \<Rightarrow> nat \<Rightarrow> byte list" where
  "appendLength dst i = appendLength_loop dst i (lengthLength i)"

text \<open>
  \<^verbatim>\<open>appendTagAndLength\<close>: the identifier octet is \<^verbatim>\<open>uint8(class) << 6\<close>, with
  \<^verbatim>\<open>0x20\<close> for a compound value, and the tag number or \<^verbatim>\<open>0x1f\<close>; then the length
  in short or long form.
\<close>

definition appendTagAndLength :: "byte list \<Rightarrow> tagAndLength \<Rightarrow> byte list" where
  "appendTagAndLength dst t =
     (let b = push_bit 6 (word_of_int (t_class t) :: byte);
          b = (if t_isCompound t then b OR 0x20 else b);
          dst = (if t_tag t \<ge> 31 then appendBase128Int (dst @ [b OR 0x1f]) (nat (t_tag t))
                 else dst @ [b OR word_of_int (t_tag t)]);
          dst = (if t_length t \<ge> 128 then
                   (let l = lengthLength (t_length t)
                    in appendLength (dst @ [0x80 OR of_nat l]) (t_length t))
                 else dst @ [of_nat (t_length t)])
      in dst)"

text \<open>
  \<^verbatim>\<open>asn1.Marshal\<close> of a \<^verbatim>\<open>[]RawValue\<close>. A raw value is written as its
  \<^verbatim>\<open>FullBytes\<close> when it has any, otherwise as its tag and length followed by its
  \<^verbatim>\<open>Bytes\<close>; the slice is the concatenation of its elements under the header of a
  universal, compound SEQUENCE. No error arises for values of this type.
\<close>

definition marshal_RawValue :: "RawValue \<Rightarrow> byte list" where
  "marshal_RawValue rv =
     (if length (FullBytes rv) \<noteq> 0 then FullBytes rv
      else appendTagAndLength []
             \<lparr> t_class = Class rv, t_tag = Tag rv, t_length = length (Bytes rv),
               t_isCompound = IsCompound rv \<rparr> @ Bytes rv)"

definition asn1_Marshal_RawValues :: "RawValue list \<Rightarrow> asn1_error + byte list" where
  "asn1_Marshal_RawValues rawValues =
     (let body = concat (map marshal_RawValue rawValues)
      in Inr (appendTagAndLength []
                \<lparr> t_class = ClassUniversal, t_tag = TagSequence, t_length = length body,
                  t_isCompound = True \<rparr> @ body))"

subsection \<open>Decoding\<close>

text \<open>
  \<^verbatim>\<open>parseBase128Int\<close> reads a tag number of 31 or more: at most five octets of seven
  bits, the first not \<^verbatim>\<open>0x80\<close>, the value at most \<^verbatim>\<open>math.MaxInt32\<close>.
\<close>

function parseBase128Int_loop ::
  "byte list \<Rightarrow> nat \<Rightarrow> nat \<Rightarrow> nat \<Rightarrow> asn1_error + (int \<times> nat)" where
  "parseBase128Int_loop bytes offset shifted ret64 =
     (if offset < length bytes then
        (if shifted = 5 then Inl (StructuralError ''base 128 integer too large'')
         else
           (let ret64 = ret64 * 128;
                b = bytes ! offset
            in if shifted = 0 \<and> b = 0x80
               then Inl (SyntaxError ''integer is not minimally encoded'')
               else
                 (let ret64 = ret64 + unat (b AND 0x7f);
                      offset = offset + 1
                  in if b AND 0x80 = 0 then
                       (if ret64 > 2 ^ 31 - 1
                        then Inl (StructuralError ''base 128 integer too large'')
                        else Inr (int ret64, offset))
                     else parseBase128Int_loop bytes offset (shifted + 1) ret64)))
      else Inl (SyntaxError ''truncated base 128 integer''))"
  by pat_completeness auto
termination
  by (relation "measure (\<lambda>(bytes, offset, shifted, ret64). length bytes - offset)") auto

declare parseBase128Int_loop.simps [simp del]

definition parseBase128Int :: "byte list \<Rightarrow> nat \<Rightarrow> asn1_error + (int \<times> nat)" where
  "parseBase128Int bytes initOffset = parseBase128Int_loop bytes initOffset 0 0"

text \<open>The loop over the length octets of the long form, \<open>n\<close> octets still to read.\<close>

fun parseLength_loop :: "byte list \<Rightarrow> nat \<Rightarrow> nat \<Rightarrow> nat \<Rightarrow> asn1_error + (nat \<times> nat)" where
  "parseLength_loop bytes offset len 0 = Inr (len, offset)"
| "parseLength_loop bytes offset len (Suc n) =
     (if offset \<ge> length bytes then Inl (SyntaxError ''truncated tag or length'')
      else
        (let b = bytes ! offset;
             offset = offset + 1
         in if len \<ge> 2 ^ 23 then Inl (StructuralError ''length too large'')
            else
              (let len = len * 256 + unat b
               in if len = 0 then Inl (StructuralError ''superfluous leading zeros in length'')
                  else parseLength_loop bytes offset len n)))"

text \<open>
  \<^verbatim>\<open>parseTagAndLength\<close>, in its two halves: the identifier octets, then the length
  octets.
\<close>

definition parseTag :: "byte list \<Rightarrow> nat \<Rightarrow> asn1_error + ((int \<times> int \<times> bool) \<times> nat)" where
  "parseTag bytes initOffset =
     (let offset = initOffset in
      if offset \<ge> length bytes then Inl (InternalError ''asn1: internal error in parseTagAndLength'')
      else
        (let b = bytes ! offset;
             offset = offset + 1;
             cls = uint (drop_bit 6 b);
             isCompound = (b AND 0x20 = 0x20);
             tag = uint (b AND 0x1f)
         in if tag = 0x1f then
              (case parseBase128Int bytes offset of
                 Inl e \<Rightarrow> Inl e
               | Inr (tag, offset) \<Rightarrow>
                   if tag < 0x1f then Inl (SyntaxError ''non-minimal tag'')
                   else Inr ((cls, tag, isCompound), offset))
            else Inr ((cls, tag, isCompound), offset)))"

definition parseLength :: "byte list \<Rightarrow> nat \<Rightarrow> asn1_error + (nat \<times> nat)" where
  "parseLength bytes offset =
     (if offset \<ge> length bytes then Inl (SyntaxError ''truncated tag or length'')
      else
        (let b = bytes ! offset;
             offset = offset + 1
         in if b AND 0x80 = 0 then Inr (unat (b AND 0x7f), offset)
            else
              (let numBytes = unat (b AND 0x7f)
               in if numBytes = 0
                  then Inl (SyntaxError ''indefinite length found (not DER)'')
                  else
                    (case parseLength_loop bytes offset 0 numBytes of
                       Inl e \<Rightarrow> Inl e
                     | Inr (len, offset) \<Rightarrow>
                         if len < 0x80 then Inl (StructuralError ''non-minimal length'')
                         else Inr (len, offset)))))"

definition parseTagAndLength :: "byte list \<Rightarrow> nat \<Rightarrow> asn1_error + (tagAndLength \<times> nat)" where
  "parseTagAndLength bytes initOffset =
     (case parseTag bytes initOffset of
        Inl e \<Rightarrow> Inl e
      | Inr ((cls, tag, isCompound), offset) \<Rightarrow>
          (case parseLength bytes offset of
             Inl e \<Rightarrow> Inl e
           | Inr (len, offset) \<Rightarrow>
               Inr (\<lparr> t_class = cls, t_tag = tag, t_length = len, t_isCompound = isCompound \<rparr>,
                    offset)))"

definition invalidLength :: "nat \<Rightarrow> nat \<Rightarrow> nat \<Rightarrow> bool" where
  "invalidLength offset len sliceLength = (offset + len < offset \<or> offset + len > sliceLength)"

text \<open>
  \<^verbatim>\<open>parseField\<close> for a target of type \<^verbatim>\<open>RawValue\<close> with no field parameters:
  any class and tag match.
\<close>

definition parseField_RawValue :: "byte list \<Rightarrow> nat \<Rightarrow> asn1_error + (RawValue \<times> nat)" where
  "parseField_RawValue bytes initOffset =
     (let offset = initOffset in
      if offset = length bytes then Inl (SyntaxError ''sequence truncated'')
      else
        (case parseTagAndLength bytes offset of
           Inl e \<Rightarrow> Inl e
         | Inr (t, offset) \<Rightarrow>
             if invalidLength offset (t_length t) (length bytes)
             then Inl (SyntaxError ''data truncated'')
             else
               (let innerBytes = take (t_length t) (drop offset bytes);
                    offset = offset + t_length t
                in Inr (\<lparr> Class = t_class t, Tag = t_tag t, IsCompound = t_isCompound t,
                           Bytes = innerBytes,
                           FullBytes = take (offset - initOffset) (drop initOffset bytes) \<rparr>,
                        offset))))"

lemma parseBase128Int_loop_offset:
  "parseBase128Int_loop bytes offset shifted ret64 = Inr (r, offset') \<Longrightarrow> offset < offset'"
proof (induction bytes offset shifted ret64 rule: parseBase128Int_loop.induct)
  case (1 bytes offset shifted ret64)
  note eq = "1.prems" [unfolded parseBase128Int_loop.simps [of bytes offset shifted ret64]]
  show ?case
  proof (cases "bytes ! offset AND 0x80 = 0")
    case True
    with eq show ?thesis
      by (simp add: Let_def split: if_splits)
  next
    case False
    with eq have rec:
      "parseBase128Int_loop bytes (offset + 1) (shifted + 1)
         (ret64 * 128 + unat (bytes ! offset AND 0x7f)) = Inr (r, offset')"
      and c: "offset < length bytes" "shifted \<noteq> 5" "\<not> (shifted = 0 \<and> bytes ! offset = 0x80)"
      by (simp_all add: Let_def split: if_splits)
    have "offset + 1 < offset'"
      using "1.IH" [OF c(1) c(2) refl refl c(3) refl refl False rec] .
    then show ?thesis by simp
  qed
qed

lemma parseLength_loop_offset:
  "parseLength_loop bytes offset len n = Inr (r, offset') \<Longrightarrow> offset \<le> offset'"
proof (induction n arbitrary: offset len)
  case 0
  then show ?case by simp
next
  case (Suc n)
  from Suc.prems have
    "parseLength_loop bytes (offset + 1) (len * 256 + unat (bytes ! offset)) n = Inr (r, offset')"
    by (simp add: Let_def split: if_splits)
  from Suc.IH [OF this] show ?case by simp
qed

lemma parseTag_offset:
  assumes "parseTag bytes offset = Inr (r, offset')"
  shows "offset < offset'"
proof (cases "uint (bytes ! offset AND 0x1f) = 0x1f")
  case True
  with assms obtain tag where "parseBase128Int_loop bytes (offset + 1) 0 0 = Inr (tag, offset')"
    by (simp add: parseTag_def parseBase128Int_def Let_def split: if_splits sum.splits prod.splits)
  from parseBase128Int_loop_offset [OF this] show ?thesis by simp
next
  case False
  with assms show ?thesis
    by (simp add: parseTag_def Let_def split: if_splits)
qed

lemma parseLength_offset:
  assumes "parseLength bytes offset = Inr (r, offset')"
  shows "offset < offset'"
proof (cases "bytes ! offset AND 0x80 = 0")
  case True
  with assms show ?thesis
    by (simp add: parseLength_def Let_def split: if_splits)
next
  case False
  with assms have
    "parseLength_loop bytes (offset + 1) 0 (unat (bytes ! offset AND 0x7f)) = Inr (r, offset')"
    by (simp add: parseLength_def Let_def split: if_splits sum.splits prod.splits)
  from parseLength_loop_offset [OF this] show ?thesis by simp
qed

lemma parseTagAndLength_offset:
  assumes "parseTagAndLength bytes offset = Inr (t, offset')"
  shows "offset + 2 \<le> offset'"
proof -
  from assms obtain r off len where
    "parseTag bytes offset = Inr (r, off)" "parseLength bytes off = Inr (len, offset')"
    by (auto simp: parseTagAndLength_def split: sum.splits prod.splits)
  then have "offset < off" "off < offset'"
    by (auto dest: parseTag_offset parseLength_offset)
  then show ?thesis by simp
qed

text \<open>
  \<^verbatim>\<open>parseSequenceOf\<close> for elements of type \<^verbatim>\<open>RawValue\<close>: a first loop walks the
  input and counts the elements, a second loop parses that many fields.
\<close>

function countElements :: "byte list \<Rightarrow> nat \<Rightarrow> nat \<Rightarrow> asn1_error + nat" where
  "countElements bytes offset numElements =
     (if offset < length bytes then
        (case parseTagAndLength bytes offset of
           Inl e \<Rightarrow> Inl e
         | Inr (t, offset') \<Rightarrow>
             if invalidLength offset' (t_length t) (length bytes)
             then Inl (SyntaxError ''truncated sequence'')
             else countElements bytes (offset' + t_length t) (numElements + 1))
      else Inr numElements)"
  by pat_completeness auto
termination
proof (relation "measure (\<lambda>(bytes, offset, numElements). length bytes - offset)")
  show "wf (measure (\<lambda>(bytes, offset, numElements). length bytes - offset))"
    by simp
next
  fix bytes :: "byte list" and offset numElements :: nat and x2 :: "tagAndLength \<times> nat"
    and t offset'
  assume "offset < length bytes" "parseTagAndLength bytes offset = Inr x2" "(t, offset') = x2"
  then have "offset + 2 \<le> offset'"
    using parseTagAndLength_offset [of bytes offset t offset'] by simp
  then show "((bytes, offset' + t_length t, numElements + 1), bytes, offset, numElements)
        \<in> measure (\<lambda>(bytes, offset, numElements). length bytes - offset)"
    using \<open>offset < length bytes\<close> by simp
qed

declare countElements.simps [simp del]

fun parseFields :: "byte list \<Rightarrow> nat \<Rightarrow> nat \<Rightarrow> asn1_error + RawValue list" where
  "parseFields bytes offset 0 = Inr []"
| "parseFields bytes offset (Suc n) =
     (case parseField_RawValue bytes offset of
        Inl e \<Rightarrow> Inl e
      | Inr (rv, offset) \<Rightarrow>
          (case parseFields bytes offset n of
             Inl e \<Rightarrow> Inl e
           | Inr rvs \<Rightarrow> Inr (rv # rvs)))"

definition parseSequenceOf_RawValue :: "byte list \<Rightarrow> asn1_error + RawValue list" where
  "parseSequenceOf_RawValue bytes =
     (case countElements bytes 0 0 of
        Inl e \<Rightarrow> Inl e
      | Inr numElements \<Rightarrow> parseFields bytes 0 numElements)"

text \<open>
  \<^verbatim>\<open>parseField\<close> for a target of type \<^verbatim>\<open>[]RawValue\<close> with no field parameters:
  the element read must be a universal, constructed SEQUENCE.
\<close>

definition parseField_RawValues :: "byte list \<Rightarrow> nat \<Rightarrow> asn1_error + (RawValue list \<times> nat)" where
  "parseField_RawValues bytes initOffset =
     (let offset = initOffset in
      if offset = length bytes then Inl (SyntaxError ''sequence truncated'')
      else
        (case parseTagAndLength bytes offset of
           Inl e \<Rightarrow> Inl e
         | Inr (t, offset) \<Rightarrow>
             if t_class t \<noteq> ClassUniversal \<or> t_tag t \<noteq> TagSequence \<or> t_isCompound t \<noteq> True
             then Inl (StructuralError ''tags do not match'')
             else if invalidLength offset (t_length t) (length bytes)
             then Inl (SyntaxError ''data truncated'')
             else
               (let innerBytes = take (t_length t) (drop offset bytes);
                    offset = offset + t_length t
                in case parseSequenceOf_RawValue innerBytes of
                     Inl e \<Rightarrow> Inl e
                   | Inr newSlice \<Rightarrow> Inr (newSlice, offset))))"

text \<open>
  \<^verbatim>\<open>asn1.Unmarshal(b, &val)\<close> for the two target types the tool uses; the result is
  the value and the rest \<^verbatim>\<open>b[offset:]\<close>.
\<close>

definition asn1_Unmarshal_RawValue :: "byte list \<Rightarrow> asn1_error + (RawValue \<times> byte list)" where
  "asn1_Unmarshal_RawValue b =
     (case parseField_RawValue b 0 of
        Inl e \<Rightarrow> Inl e
      | Inr (val, offset) \<Rightarrow> Inr (val, drop offset b))"

definition asn1_Unmarshal_RawValues :: "byte list \<Rightarrow> asn1_error + (RawValue list \<times> byte list)" where
  "asn1_Unmarshal_RawValues b =
     (case parseField_RawValues b 0 of
        Inl e \<Rightarrow> Inl e
      | Inr (val, offset) \<Rightarrow> Inr (val, drop offset b))"

section \<open>The certificate request\<close>

text \<open>
  \<^verbatim>\<open>pkix.Extension\<close> and the fields of \<^verbatim>\<open>x509.CertificateRequest\<close> in use.
  \<open>csr_CheckSignature\<close> is the error that the method \<^verbatim>\<open>CheckSignature\<close> returns for
  the request, \<open>None\<close> for \<^verbatim>\<open>nil\<close>.
\<close>

record Extension =
  ext_Id :: "int list"
  ext_Critical :: bool
  ext_Value :: "byte list"

datatype SignatureAlgorithm = UnknownSignatureAlgorithm | SHA256WithRSA | OtherSignatureAlgorithm nat

record CertificateRequest =
  csr_Subject :: Name
  csr_SignatureAlgorithm :: SignatureAlgorithm
  csr_Extensions :: "Extension list"
  csr_ExtraExtensions :: "Extension list"
  csr_CheckSignature :: "string option"

definition oidSubjectAltName :: "int list" where
  "oidSubjectAltName = [2, 5, 29, 17]"

text \<open>
  The SAN extension as \<^verbatim>\<open>main\<close> builds it (lines 496-511); \<open>Inl\<close> is the branch
  that prints the encoding error and exits.
\<close>

definition sanRawValues :: "string list \<Rightarrow> RawValue list" where
  "sanRawValues sans =
     foldl (\<lambda>rawValues san. rawValues @
              [\<lparr> Class = 2, Tag = 2, IsCompound = False, Bytes = bytes_of_string san,
                 FullBytes = [] \<rparr>]) [] sans"

definition sanExtension :: "string list \<Rightarrow> asn1_error + Extension" where
  "sanExtension sans =
     (case asn1_Marshal_RawValues (sanRawValues sans) of
        Inl err \<Rightarrow> Inl err
      | Inr sequence \<Rightarrow>
          Inr \<lparr> ext_Id = oidSubjectAltName, ext_Critical = False, ext_Value = sequence \<rparr>)"

text \<open>The request template (lines 489-514).\<close>

definition csrTemplate :: "Name \<Rightarrow> string list \<Rightarrow> asn1_error + CertificateRequest" where
  "csrTemplate sbj sans =
     (let template = \<lparr> csr_Subject = sbj, csr_SignatureAlgorithm = SHA256WithRSA,
                       csr_Extensions = [], csr_ExtraExtensions = [],
                       csr_CheckSignature = None \<rparr>
      in if length sans > 0 then
           (case sanExtension sans of
              Inl err \<Rightarrow> Inl err
            | Inr ext \<Rightarrow> Inr (template\<lparr>csr_ExtraExtensions := [ext]\<rparr>))
         else Inr template)"

text \<open>
  \<^verbatim>\<open>x509.CreateCertificateRequest\<close> followed by \<^verbatim>\<open>x509.ParseCertificateRequest\<close>:
  the extra extensions of the template are the extensions of the request, and the
  signature made with the key checks against the embedded public key.
\<close>

definition x509_CreateCertificateRequest :: "CertificateRequest \<Rightarrow> CertificateRequest" where
  "x509_CreateCertificateRequest template =
     template\<lparr>csr_Extensions := csr_ExtraExtensions template, csr_ExtraExtensions := []\<rparr>"

definition generatedCSR :: "Name \<Rightarrow> string list \<Rightarrow> asn1_error + CertificateRequest" where
  "generatedCSR sbj sans =
     (case csrTemplate sbj sans of
        Inl err \<Rightarrow> Inl err
      | Inr template \<Rightarrow> Inr (x509_CreateCertificateRequest template))"

section \<open>The decoder\<close>

text \<open>
  The SAN extraction of \<^verbatim>\<open>printCSRInfo\<close> (lines 176-195): the body of the loop over
  the extensions, and the loop.
\<close>

definition collectDNS :: "string list \<Rightarrow> RawValue list \<Rightarrow> string list" where
  "collectDNS dnsNames rawValues =
     foldl (\<lambda>dnsNames rv. if Class rv = 2 \<and> Tag rv = 2
                            then dnsNames @ [string_of_bytes (Bytes rv)] else dnsNames)
       dnsNames rawValues"

definition extractSAN :: "string list \<Rightarrow> Extension \<Rightarrow> string list" where
  "extractSAN dnsNames ext =
     (if ext_Id ext = [2, 5, 29, 17] then
        (case asn1_Unmarshal_RawValue (ext_Value ext) of
           Inl err \<Rightarrow> dnsNames
         | Inr (seq, rest) \<Rightarrow>
             if length rest = 0 then
               (if Class seq = ClassUniversal \<and> Tag seq = TagSequence then
                  (case asn1_Unmarshal_RawValues (Bytes seq) of
                     Inl err \<Rightarrow> dnsNames
                   | Inr (rawValues, rest) \<Rightarrow>
                       if length rest = 0 then collectDNS dnsNames rawValues else dnsNames)
                else dnsNames)
             else dnsNames)
      else dnsNames)"

definition csr_dnsNames :: "CertificateRequest \<Rightarrow> string list" where
  "csr_dnsNames csr = foldl extractSAN [] (csr_Extensions csr)"

text \<open>What \<^verbatim>\<open>printCSRInfo\<close> (lines 170-211) prints.\<close>

record CSRInfo =
  info_Subject :: string
  info_SignatureAlgorithm :: SignatureAlgorithm
  info_dnsNames :: "string list"
  info_SignatureValid :: bool

definition printCSRInfo :: "CertificateRequest \<Rightarrow> CSRInfo" where
  "printCSRInfo csr =
     \<lparr> info_Subject = formatName (csr_Subject csr),
       info_SignatureAlgorithm = csr_SignatureAlgorithm csr,
       info_dnsNames = csr_dnsNames csr,
       info_SignatureValid = (csr_CheckSignature csr = None) \<rparr>"

text \<open>What \<^verbatim>\<open>printCertificateInfo\<close> (lines 96-167) prints.\<close>

record CertificateInfo =
  cinfo_Subject :: string
  cinfo_Issuer :: string
  cinfo_SerialNumber :: int
  cinfo_NotBefore :: Time
  cinfo_NotAfter :: Time
  cinfo_dnsNames :: "string list"
  cinfo_SelfSigned :: bool
  cinfo_KeyUsage :: "string list"
  cinfo_ExtKeyUsage :: "string list"

definition printCertificateInfo :: "(Name \<Rightarrow> string) \<Rightarrow> Certificate \<Rightarrow> CertificateInfo" where
  "printCertificateInfo name_String cert =
     \<lparr> cinfo_Subject = formatName (Subject cert),
       cinfo_Issuer = formatName (Issuer cert),
       cinfo_SerialNumber = SerialNumber cert,
       cinfo_NotBefore = NotBefore cert,
       cinfo_NotAfter = NotAfter cert,
       cinfo_dnsNames = DNSNames cert,
       cinfo_SelfSigned = isSelfSigned name_String cert,
       cinfo_KeyUsage = keyUsage_lines (KeyUsage cert),
       cinfo_ExtKeyUsage = extKeyUsage_lines (ExtKeyUsage cert) \<rparr>"

text \<open>
  An RSA private key as \<^verbatim>\<open>printRSAKeyInfo\<close> (lines 214-231) reads it: modulus,
  public exponent, and the outcome of the library's \<^verbatim>\<open>Validate\<close>. The keys that
  \<^verbatim>\<open>x509.ParsePKCS8PrivateKey\<close> can return are RSA keys and keys of other kinds.
\<close>

record rsa_PrivateKey =
  rsa_N :: nat
  rsa_E :: int
  rsa_Validate :: "string option"

datatype pkcs8_key =
    RSAKey rsa_PrivateKey
  | ECDSAKey
  | Ed25519Key
  | ECDHKey

fun BitLen :: "nat \<Rightarrow> nat" where
  "BitLen n = (if n = 0 then 0 else 1 + BitLen (n div 2))"

declare BitLen.simps [simp del]

record RSAKeyInfo =
  kinfo_KeySize :: nat
  kinfo_PublicExponent :: int
  kinfo_Valid :: bool

definition printRSAKeyInfo :: "rsa_PrivateKey \<Rightarrow> RSAKeyInfo" where
  "printRSAKeyInfo key =
     \<lparr> kinfo_KeySize = BitLen (rsa_N key),
       kinfo_PublicExponent = rsa_E key,
       kinfo_Valid = (rsa_Validate key = None) \<rparr>"

text \<open>
  The library calls of \<^verbatim>\<open>decodeFile\<close> are parameters: reading the file, decoding
  the first PEM block, the four parsers, and the rendering of names.
\<close>

record pem_Block =
  pem_Type :: string
  pem_Bytes :: "byte list"

record library =
  os_ReadFile :: "string \<Rightarrow> string + byte list"
  pem_Decode :: "byte list \<Rightarrow> pem_Block option"
  x509_ParseCertificate :: "byte list \<Rightarrow> string + Certificate"
  x509_ParseCertificateRequest :: "byte list \<Rightarrow> string + CertificateRequest"
  x509_ParsePKCS1PrivateKey :: "byte list \<Rightarrow> string + rsa_PrivateKey"
  x509_ParsePKCS8PrivateKey :: "byte list \<Rightarrow> string + pkcs8_key"
  pkix_Name_String :: "Name \<Rightarrow> string"

datatype decode_error =
    ErrReadingFile string
  | ErrNoPEMBlock
  | ErrParseCertificate string
  | ErrParseCSR string
  | ErrParseRSAPrivateKey string
  | ErrParsePrivateKey string
  | ErrUnsupportedKeyType
  | ErrUnsupportedBlockType string

datatype decoded =
    DecodedCertificate CertificateInfo
  | DecodedCSR CSRInfo
  | DecodedRSAKey RSAKeyInfo

text \<open>
  \<^verbatim>\<open>decodeFile\<close> (lines 40-93): \<open>Inl\<close> is the error returned, \<open>Inr\<close> is the
  return of \<^verbatim>\<open>nil\<close> together with what was printed.
\<close>

definition decodeFile :: "library \<Rightarrow> string \<Rightarrow> decode_error + decoded" where
  "decodeFile lib filePath =
     (case os_ReadFile lib filePath of
        Inl err \<Rightarrow> Inl (ErrReadingFile err)
      | Inr data \<Rightarrow>
          (case pem_Decode lib data of
             None \<Rightarrow> Inl ErrNoPEMBlock
           | Some block \<Rightarrow>
               if pem_Type block = ''CERTIFICATE'' then
                 (case x509_ParseCertificate lib (pem_Bytes block) of
                    Inl err \<Rightarrow> Inl (ErrParseCertificate err)
                  | Inr cert \<Rightarrow>
                      Inr (DecodedCertificate (printCertificateInfo (pkix_Name_String lib) cert)))
               else if pem_Type block = ''CERTIFICATE REQUEST'' then
                 (case x509_ParseCertificateRequest lib (pem_Bytes block) of
                    Inl err \<Rightarrow> Inl (ErrParseCSR err)
                  | Inr csr \<Rightarrow> Inr (DecodedCSR (printCSRInfo csr)))
               else if pem_Type block = ''RSA PRIVATE KEY'' then
                 (case x509_ParsePKCS1PrivateKey lib (pem_Bytes block) of
                    Inl err \<Rightarrow> Inl (ErrParseRSAPrivateKey err)
                  | Inr key \<Rightarrow> Inr (DecodedRSAKey (printRSAKeyInfo key)))
               else if pem_Type block = ''PRIVATE KEY'' then
                 (case x509_ParsePKCS8PrivateKey lib (pem_Bytes block) of
                    Inl err \<Rightarrow> Inl (ErrParsePrivateKey err)
                  | Inr key \<Rightarrow>
                      (case key of
                         RSAKey rsaKey \<Rightarrow> Inr (DecodedRSAKey (printRSAKeyInfo rsaKey))
                       | _ \<Rightarrow> Inl ErrUnsupportedKeyType))
               else Inl (ErrUnsupportedBlockType (pem_Type block))))"

section \<open>DER encoding as the standard words it\<close>

text \<open>
  What the specification calls the DER encoding of a value, written down independently of
  the library's loops (X.690): an identifier octet made of class, constructed bit and tag
  number (below 31), the definite length in its shortest form (one octet below 128,
  otherwise the count of length octets with the top bit set, then the length big-endian),
  and the content.
\<close>

fun be_octets :: "nat \<Rightarrow> byte list" where
  "be_octets n = (if n < 256 then [of_nat n] else be_octets (n div 256) @ [of_nat n])"

declare be_octets.simps [simp del]

definition der_definite_length :: "nat \<Rightarrow> byte list" where
  "der_definite_length n =
     (if n < 128 then [of_nat n] else (0x80 OR of_nat (length (be_octets n))) # be_octets n)"

definition der_identifier :: "nat \<Rightarrow> bool \<Rightarrow> nat \<Rightarrow> byte" where
  "der_identifier cls constructed tag = of_nat (cls * 64 + (if constructed then 32 else 0) + tag)"

definition der_element :: "nat \<Rightarrow> bool \<Rightarrow> nat \<Rightarrow> byte list \<Rightarrow> byte list" where
  "der_element cls constructed tag content =
     der_identifier cls constructed tag # der_definite_length (length content) @ content"

text \<open>The raw value that the library reads back from one DNS-name element.\<close>

definition dnsRawValue :: "byte list \<Rightarrow> RawValue" where
  "dnsRawValue content =
     \<lparr> Class = 2, Tag = 2, IsCompound = False, Bytes = content,
       FullBytes = der_element 2 False 2 content \<rparr>"


text \<open>
  The shape of a SAN extension value: a universal constructed sequence, with nothing
  after it, whose elements are all of the context-specific class 2, as the library's
  decoder for a slice of raw values reads them from the value itself.
\<close>

definition sanShape :: "byte list \<Rightarrow> bool" where
  "sanShape v =
     (case asn1_Unmarshal_RawValues v of
        Inl err \<Rightarrow> False
      | Inr (names, rest) \<Rightarrow> rest = [] \<and> list_all (\<lambda>name. Class name = 2) names)"

section \<open>Numbers as they are typed\<close>




section \<open>Sample inputs\<close>

text \<open>
  Two requests as the library's parser returns them: one that asks for a key-usage
  extension and has no SAN extension, and one whose SAN extension value wraps the
  DNS-name element in a second sequence. The library environment has three files: the
  first request, a PKCS#8 file holding an ECDSA key, and a PKCS#1 RSA key.
\<close>

definition keyUsageCSR :: CertificateRequest where
  "keyUsageCSR =
     \<lparr> csr_Subject = subj ''example.com'' [] [] [] [] [],
       csr_SignatureAlgorithm = SHA256WithRSA,
       csr_Extensions = [\<lparr> ext_Id = [2, 5, 29, 15], ext_Critical = False,
                           ext_Value = [0x03, 0x02, 0x05, 0xa0] \<rparr>],
       csr_ExtraExtensions = [],
       csr_CheckSignature = None \<rparr>"



definition sampleLibrary :: library where
  "sampleLibrary =
     \<lparr> os_ReadFile = (\<lambda>path. if path = ''req.csr'' then Inr [1]
                               else if path = ''ec.key'' then Inr [2]
                               else if path = ''rsa.key'' then Inr [3]
                               else Inl ''no such file or directory''),
       pem_Decode = (\<lambda>data. if data = [1]
                                then Some \<lparr> pem_Type = ''CERTIFICATE REQUEST'', pem_Bytes = [1] \<rparr>
                              else if data = [2]
                                then Some \<lparr> pem_Type = ''PRIVATE KEY'', pem_Bytes = [2] \<rparr>
                              else if data = [3]
                                then Some \<lparr> pem_Type = ''RSA PRIVATE KEY'', pem_Bytes = [3] \<rparr>
                              else None),
       x509_ParseCertificate = (\<lambda>der. Inl ''malformed certificate''),
       x509_ParseCertificateRequest =
         (\<lambda>der. if der = [1] then Inr keyUsageCSR else Inl ''malformed request''),
       x509_ParsePKCS1PrivateKey =
         (\<lambda>der. if der = [3] then Inr \<lparr> rsa_N = 3233, rsa_E = 17, rsa_Validate = None \<rparr>
                  else Inl ''malformed key''),
       x509_ParsePKCS8PrivateKey =
         (\<lambda>der. if der = [2] then Inr ECDSAKey else Inl ''malformed key''),
       pkix_Name_String = formatName \<rparr>"

section \<open>Verified properties\<close>

subsection \<open>Helper lemmas\<close>

lemma contains_iff: "contains xs s \<longleftrightarrow> s \<in> set xs"
  by (induction xs) auto

lemma strings_Contains_single: "strings_Contains s [c] \<longleftrightarrow> c \<in> set s"
  by (induction s) auto

lemma certTemplate_DNSNames:
  "DNSNames (certTemplate sn sbj now d sans cn) =
     (if CHR ''.'' \<in> set cn \<and> cn \<notin> set sans then sans @ [cn] else sans)"
  by (cases sans) (simp_all add: certTemplate_def Let_def contains_iff strings_Contains_single)













lemma foldl_snoc_map: "foldl (\<lambda>parts x. parts @ [f x]) acc xs = acc @ map f xs"
  by (induction xs arbitrary: acc) simp_all

lemma formatName_parts_eq:
  "formatName_parts name =
     (if CommonName name = [] then [] else [''CN='' @ CommonName name]) @
     map ((@) ''O='') (Organization name) @
     map ((@) ''OU='') (OrganizationalUnit name) @
     map ((@) ''C='') (Country name) @
     map ((@) ''ST='') (Province name) @
     map ((@) ''L='') (Locality name)"
  by (simp add: formatName_parts_def Let_def foldl_snoc_map)

text \<open>
  The 64-bit product \<^verbatim>\<open>Duration(d) * 24 * Hour\<close> is exact as long as it fits,
  that is for at most 106751 days in either direction.
\<close>

lemma validity_duration_exact:
  assumes "- 106751 \<le> d" "d \<le> 106751"
  shows "sint (validity_duration d) = d * (24 * 3600000000000)"
proof -
  define k :: int where "k = 24 * 3600000000000"
  have "(24 :: 64 word) * Hour = word_of_int k"
    by (simp add: Hour_def k_def)
  then have w: "validity_duration d = word_of_int (d * k)"
    by (simp add: validity_duration_def mult.assoc)
  have lo: "- (2 ^ (LENGTH(64) - 1)) \<le> d * k" and hi: "d * k < 2 ^ (LENGTH(64) - 1)"
    using assms by (simp_all add: k_def)
  have "sint (word_of_int (d * k) :: 64 word) = signed_take_bit (LENGTH(64) - 1) (d * k)"
    by (rule sint_sbintrunc')
  also have "\<dots> = d * k"
    using lo hi by (rule signed_take_bit_int_eq_self)
  finally show ?thesis
    by (simp only: w k_def)
qed

lemma validity_duration_inexact:
  assumes "d < - 106751 \<or> 106751 < d"
  shows "sint (validity_duration d) \<noteq> d * (24 * 3600000000000)"
proof -
  have lo: "- (2 ^ 63) \<le> sint (validity_duration d)"
    using sint_ge [of "validity_duration d"] by simp
  have hi: "sint (validity_duration d) < 2 ^ 63"
    using sint_lt [of "validity_duration d"] by simp
  from assms have "d * (24 * 3600000000000) < - (2 ^ 63) \<or> 2 ^ 63 \<le> d * (24 * 3600000000000)"
    by auto
  with lo hi show ?thesis by auto
qed

lemma validity_input_flag:
  "validity_input True daysFlag selfSigned validDaysStr = (True, daysFlag)"
  by (simp add: validity_input_def)

lemma validity_input_prompt_positive:
  "validDaysStr \<noteq> [] \<Longrightarrow> 0 < snd (validity_input False daysFlag ''y'' validDaysStr)"
  by (simp add: validity_input_def Let_def split: option.split)

subsection \<open>Bytes and bits\<close>

lemma byte_and_0x7f: "(x :: byte) AND 0x7f = take_bit 7 x"
proof -
  have "(0x7f :: byte) = mask 7" by (simp add: mask_eq_exp_minus_1)
  then show ?thesis by (simp add: take_bit_eq_mask)
qed

lemma byte_short_length_value: "n < 128 \<Longrightarrow> unat ((of_nat n :: byte) AND 0x7f) = n"
  by (simp add: byte_and_0x7f unsigned_take_bit_eq unat_of_nat take_bit_nat_eq_self)

lemma byte_and_0x80: "(x :: byte) AND 0x80 = 0 \<longleftrightarrow> \<not> bit x 7"
proof -
  have "(0x80 :: byte) = 2 ^ 7" by simp
  then show ?thesis by (simp only: and_exp_eq_0_iff_not_bit)
qed

lemma byte_short_length_flag: "n < 128 \<Longrightarrow> (of_nat n :: byte) AND 0x80 = 0"
proof -
  assume n: "n < 128"
  then have "\<not> bit n 7" by (simp add: bit_iff_odd)
  then have "\<not> bit (of_nat n :: byte) 7" by (simp only: bit_of_nat_iff) simp
  then show ?thesis by (simp add: byte_and_0x80)
qed

lemma byte_long_length_flag: "((0x80 :: byte) OR x) AND 0x80 \<noteq> 0"
  by simp

lemma byte_long_length_count: "k < 128 \<Longrightarrow> unat (((0x80 :: byte) OR of_nat k) AND 0x7f) = k"
proof -
  assume k: "k < 128"
  have "((0x80 :: byte) OR of_nat k) AND 0x7f = (0x80 AND 0x7f) OR (of_nat k AND 0x7f)"
    by (rule bit.conj_disj_distrib2)
  also have "\<dots> = of_nat k AND 0x7f" by simp
  finally show ?thesis using k by (simp only: byte_short_length_value)
qed

lemma unat_byte_of_nat: "unat (of_nat n :: byte) = n mod 256"
  by (simp add: unat_of_nat)

subsection \<open>The library's encoder writes standard DER\<close>

lemma appendLength_loop_eq:
  "appendLength_loop dst i k = dst @ map (\<lambda>j. of_nat (i div 2 ^ (j * 8))) (rev [0..<k])"
  by (induction k arbitrary: dst) simp_all

lemma length_be_octets: "length (be_octets n) = lengthLength n"
proof (induction n rule: lengthLength.induct)
  case (1 i)
  show ?case
  proof (cases "i > 255")
    case True
    with 1 show ?thesis
      by (subst be_octets.simps, subst lengthLength.simps) simp
  next
    case False
    then show ?thesis
      by (subst be_octets.simps, subst lengthLength.simps) simp
  qed
qed

lemma rev_upt_Suc_shift: "rev [0..<Suc k] = map Suc (rev [0..<k]) @ [0]"
proof -
  have "[0..<Suc k] = 0 # map Suc [0..<k]"
    by (simp add: upt_conv_Cons map_Suc_upt del: upt_Suc)
  then show ?thesis by (simp add: rev_map del: upt_Suc)
qed

lemma be_octets_eq:
  "be_octets n = map (\<lambda>j. of_nat (n div 2 ^ (j * 8))) (rev [0..<lengthLength n])"
proof (induction n rule: lengthLength.induct)
  case (1 i)
  show ?case
  proof (cases "i > 255")
    case True
    have d: "i div 256 div 2 ^ (j * 8) = i div 2 ^ (Suc j * 8)" for j
      by (simp add: div_mult2_eq power_add mult.commute)
    from True have ll: "lengthLength i = Suc (lengthLength (i div 256))"
      by (subst lengthLength.simps) simp
    from True have "be_octets i = be_octets (i div 256) @ [of_nat i]"
      by (subst be_octets.simps) simp
    also have "be_octets (i div 256)
        = map (\<lambda>j. of_nat (i div 256 div 2 ^ (j * 8))) (rev [0..<lengthLength (i div 256)])"
      using 1 True by simp
    finally show ?thesis
      unfolding ll rev_upt_Suc_shift by (simp add: d comp_def del: upt_Suc)
  next
    case False
    then have "lengthLength i = 1" by (subst lengthLength.simps) simp
    with False show ?thesis
      by (subst be_octets.simps) simp
  qed
qed

lemma appendLength_be_octets: "appendLength dst n = dst @ be_octets n"
  by (simp add: appendLength_def appendLength_loop_eq be_octets_eq)

lemma appendTagAndLength_sequence:
  "appendTagAndLength [] \<lparr> t_class = ClassUniversal, t_tag = TagSequence, t_length = n,
      t_isCompound = True \<rparr> = der_identifier 0 True 16 # der_definite_length n"
  by (simp add: appendTagAndLength_def ClassUniversal_def TagSequence_def Let_def
      der_identifier_def der_definite_length_def appendLength_be_octets length_be_octets)

lemma appendTagAndLength_dns:
  "appendTagAndLength [] \<lparr> t_class = 2, t_tag = 2, t_length = n, t_isCompound = False \<rparr>
     = der_identifier 2 False 2 # der_definite_length n"
  by (simp add: appendTagAndLength_def Let_def
      der_identifier_def der_definite_length_def appendLength_be_octets length_be_octets)

lemma sanRawValues_eq:
  "sanRawValues sans =
     map (\<lambda>san. \<lparr> Class = 2, Tag = 2, IsCompound = False, Bytes = bytes_of_string san,
                    FullBytes = [] \<rparr>) sans"
  by (simp add: sanRawValues_def foldl_snoc_map)

lemma marshal_sanRawValues:
  "concat (map marshal_RawValue (sanRawValues sans))
     = concat (map (\<lambda>san. der_element 2 False 2 (bytes_of_string san)) sans)"
  by (simp add: sanRawValues_eq comp_def marshal_RawValue_def appendTagAndLength_dns
      der_element_def)

lemma sanExtension_eq:
  "sanExtension sans =
     Inr \<lparr> ext_Id = [2, 5, 29, 17], ext_Critical = False,
           ext_Value = der_element 0 True 16
             (concat (map (\<lambda>san. der_element 2 False 2 (bytes_of_string san)) sans)) \<rparr>"
  by (simp add: sanExtension_def asn1_Marshal_RawValues_def Let_def marshal_sanRawValues
      appendTagAndLength_sequence der_element_def oidSubjectAltName_def)

lemma der_element_example:
  "der_element 0 True 16 (concat (map (\<lambda>san. der_element 2 False 2 (bytes_of_string san))
       [''example.com'', ''www.example.com'']))
   = [0x30, 0x1e, 0x82, 0x0b, 0x65, 0x78, 0x61, 0x6d, 0x70, 0x6c, 0x65, 0x2e, 0x63, 0x6f, 0x6d,
      0x82, 0x0f, 0x77, 0x77, 0x77, 0x2e, 0x65, 0x78, 0x61, 0x6d, 0x70, 0x6c, 0x65, 0x2e, 0x63,
      0x6f, 0x6d]"
  by code_simp

subsection \<open>The library's decoder reads standard DER back\<close>

lemma lengthLength_pos: "0 < lengthLength n"
  by (subst lengthLength.simps) simp

lemma lengthLength_lower: "256 ^ (lengthLength n - 1) \<le> n \<or> lengthLength n = 1"
proof (induction n rule: lengthLength.induct)
  case (1 i)
  show ?case
  proof (cases "i > 255")
    case False
    then show ?thesis by (subst (2) lengthLength.simps) simp
  next
    case True
    then have ll: "lengthLength i = Suc (lengthLength (i div 256))"
      by (subst lengthLength.simps) simp
    from 1 True have "256 ^ (lengthLength (i div 256) - 1) \<le> i div 256 \<or> lengthLength (i div 256) = 1"
      by simp
    then have "256 ^ (lengthLength (i div 256) - 1) \<le> i div 256"
      using True by auto
    then have "256 * 256 ^ (lengthLength (i div 256) - 1) \<le> 256 * (i div 256)"
      by simp
    also have "\<dots> \<le> i" by simp
    finally have "256 ^ lengthLength (i div 256) \<le> i"
      using lengthLength_pos [of "i div 256"]
      by (cases "lengthLength (i div 256)") simp_all
    then show ?thesis by (simp add: ll)
  qed
qed

lemma lengthLength_upper: "n < 256 ^ lengthLength n"
proof (induction n rule: lengthLength.induct)
  case (1 i)
  show ?case
  proof (cases "i > 255")
    case False
    then show ?thesis by (subst lengthLength.simps) simp
  next
    case True
    then have ll: "lengthLength i = Suc (lengthLength (i div 256))"
      by (subst lengthLength.simps) simp
    from 1 True have "i div 256 < 256 ^ lengthLength (i div 256)" by simp
    then have "i < 256 * 256 ^ lengthLength (i div 256)"
      by (simp add: div_less_iff_less_mult mult.commute)
    then show ?thesis by (simp add: ll)
  qed
qed

lemma lengthLength_le4: "n < 2 ^ 31 \<Longrightarrow> lengthLength n \<le> 4"
proof (rule ccontr)
  assume n: "n < 2 ^ 31" and "\<not> lengthLength n \<le> 4"
  then have k: "5 \<le> lengthLength n" by simp
  then have "lengthLength n \<noteq> 1" by simp
  with lengthLength_lower [of n] have "256 ^ (lengthLength n - 1) \<le> n" by simp
  moreover have "(256::nat) ^ 4 \<le> 256 ^ (lengthLength n - 1)"
    using k by (intro power_increasing) simp_all
  ultimately show False using n by simp
qed

text \<open>The loop over the length octets reads back what \<open>appendLength\<close> wrote.\<close>

lemma parseLength_loop_digits:
  assumes "\<forall>j<k. bytes ! (off + j) = of_nat (n div 2 ^ ((k - 1 - j) * 8))"
    and "off + k \<le> length bytes"
    and "n div 256 < 2 ^ 23"
    and "0 < k \<longrightarrow> n div 256 ^ (k - 1) \<noteq> 0"
  shows "parseLength_loop bytes off (n div 256 ^ k) k = Inr (n, off + k)"
  using assms
proof (induction k arbitrary: off)
  case 0
  then show ?case by simp
next
  case (Suc k)
  from Suc.prems(1) have b: "bytes ! off = of_nat (n div 2 ^ (k * 8))"
    by (auto dest: spec [of _ 0])
  have p: "(2::nat) ^ (k * 8) = 256 ^ k"
  proof -
    have "(2::nat) ^ (k * 8) = 2 ^ (8 * k)" by (simp only: mult.commute)
    also have "\<dots> = (2 ^ 8) ^ k" by (rule power_mult)
    finally show ?thesis by simp
  qed
  have acc: "n div 256 ^ Suc k < 2 ^ 23"
  proof -
    have "n div 256 ^ Suc k = n div 256 div 256 ^ k"
      by (simp add: div_mult2_eq)
    also have "\<dots> \<le> n div 256" by (rule div_le_dividend)
    finally show ?thesis using Suc.prems(3) by simp
  qed
  have new: "n div 256 ^ Suc k * 256 + unat (bytes ! off) = n div 256 ^ k"
  proof -
    have "n div 256 ^ Suc k = n div 256 ^ k div 256"
      by (simp only: power_Suc2 div_mult2_eq)
    moreover have "unat (bytes ! off) = n div 256 ^ k mod 256"
      by (simp only: b p unat_byte_of_nat)
    ultimately show ?thesis by simp
  qed
  from Suc.prems(4) have nz: "n div 256 ^ k \<noteq> 0" by simp
  have digits: "\<forall>j<k. bytes ! (off + 1 + j) = of_nat (n div 2 ^ ((k - 1 - j) * 8))"
  proof (intro allI impI)
    fix j assume "j < k"
    then have "bytes ! (off + Suc j) = of_nat (n div 2 ^ ((Suc k - 1 - Suc j) * 8))"
      using Suc.prems(1) by (auto dest!: spec [of _ "Suc j"])
    then show "bytes ! (off + 1 + j) = of_nat (n div 2 ^ ((k - 1 - j) * 8))" by simp
  qed
  have nz': "0 < k \<longrightarrow> n div 256 ^ (k - 1) \<noteq> 0"
  proof
    assume "0 < k"
    from nz have a: "256 ^ k \<le> n" by (simp add: div_eq_0_iff)
    have b: "(256::nat) ^ (k - 1) \<le> 256 ^ k"
      by (intro power_increasing) simp_all
    from b a have "256 ^ (k - 1) \<le> n" by (rule le_trans)
    then show "n div 256 ^ (k - 1) \<noteq> 0" by (simp add: div_eq_0_iff)
  qed
  have rec: "parseLength_loop bytes (off + 1) (n div 256 ^ k) k = Inr (n, off + 1 + k)"
    using Suc.prems(2,3) by (intro Suc.IH digits nz') simp_all
  have inb: "\<not> length bytes \<le> off" using Suc.prems(2) by simp
  have small: "\<not> 2 ^ 23 \<le> n div 256 ^ Suc k" using acc by simp
  have nz2: "n div 256 ^ Suc k * 256 + unat (bytes ! off) \<noteq> 0"
    unfolding new by (rule nz)
  have "parseLength_loop bytes off (n div 256 ^ Suc k) (Suc k)
      = parseLength_loop bytes (off + 1) (n div 256 ^ Suc k * 256 + unat (bytes ! off)) k"
    by (simp only: parseLength_loop.simps Let_def inb small nz2 if_False)
  also have "\<dots> = Inr (n, off + 1 + k)"
    by (simp only: new rec)
  finally show ?case by simp
qed

lemma be_octets_nth:
  "j < lengthLength n \<Longrightarrow> be_octets n ! j = of_nat (n div 2 ^ ((lengthLength n - 1 - j) * 8))"
  by (simp add: be_octets_eq rev_nth del: upt_Suc)

lemma length_der_definite_length:
  "length (der_definite_length n) = (if n < 128 then 1 else 1 + lengthLength n)"
  by (simp add: der_definite_length_def length_be_octets)

lemma parseLength_der:
  assumes n: "n < 2 ^ 31"
  shows "parseLength (pre @ der_definite_length n @ post) (length pre)
           = Inr (n, length pre + length (der_definite_length n))"
proof (cases "n < 128")
  case True
  then have b: "(pre @ der_definite_length n @ post) ! length pre = of_nat n"
    by (simp add: der_definite_length_def)
  from True show ?thesis
    by (simp add: parseLength_def Let_def b byte_short_length_flag byte_short_length_value length_der_definite_length)
next
  case False
  define k where "k = lengthLength n"
  define bytes where "bytes = pre @ der_definite_length n @ post"
  have k4: "k \<le> 4" unfolding k_def using n by (rule lengthLength_le4)
  have kpos: "0 < k" unfolding k_def by (rule lengthLength_pos)
  from False have L: "der_definite_length n = (0x80 OR of_nat k) # be_octets n"
    by (simp add: der_definite_length_def k_def length_be_octets)
  have len: "length bytes = length pre + 1 + k + length post"
    by (simp add: bytes_def L length_be_octets k_def)
  have b: "bytes ! length pre = 0x80 OR of_nat k"
    by (simp add: bytes_def L)
  have digits: "\<forall>j<k. bytes ! (length pre + 1 + j) = of_nat (n div 2 ^ ((k - 1 - j) * 8))"
  proof (intro allI impI)
    fix j assume j: "j < k"
    have "bytes ! (length pre + 1 + j) = (be_octets n @ post) ! j"
      by (simp add: bytes_def L nth_append)
    also have "\<dots> = be_octets n ! j"
      using j by (simp add: nth_append length_be_octets k_def)
    finally show "bytes ! (length pre + 1 + j) = of_nat (n div 2 ^ ((k - 1 - j) * 8))"
      using j by (simp add: be_octets_nth k_def)
  qed
  have zero: "n div 256 ^ k = 0"
    using lengthLength_upper [of n] by (simp add: k_def)
  have small: "n div 256 < 2 ^ 23"
    using n by simp
  have lead: "0 < k \<longrightarrow> n div 256 ^ (k - 1) \<noteq> 0"
  proof
    from lengthLength_lower [of n] show "n div 256 ^ (k - 1) \<noteq> 0"
    proof
      assume "256 ^ (lengthLength n - 1) \<le> n"
      then show ?thesis by (simp add: k_def div_eq_0_iff)
    next
      assume "lengthLength n = 1"
      with False show ?thesis by (simp add: k_def)
    qed
  qed
  have "parseLength_loop bytes (length pre + 1) (n div 256 ^ k) k = Inr (n, length pre + 1 + k)"
    using digits small lead by (intro parseLength_loop_digits) (simp_all add: len)
  then have loop: "parseLength_loop bytes (Suc (length pre)) 0 k = Inr (n, length pre + 1 + k)"
    by (simp add: zero)
  have num: "unat ((0x80 OR of_nat k :: byte) AND 0x7f) = k"
    using k4 by (intro byte_long_length_count) simp
  have "parseLength bytes (length pre) = Inr (n, length pre + 1 + k)"
    using False kpos
    by (simp add: parseLength_def Let_def b len num loop)
  then show ?thesis
    using False by (simp add: bytes_def length_der_definite_length k_def)
qed

lemma parseTag_dns:
  "parseTag (pre @ der_identifier 2 False 2 # rest) (length pre) = Inr ((2, 2, False), length pre + 1)"
  by (simp add: parseTag_def Let_def der_identifier_def)

lemma parseTag_sequence:
  "parseTag (pre @ der_identifier 0 True 16 # rest) (length pre) = Inr ((0, 16, True), length pre + 1)"
  by (simp add: parseTag_def Let_def der_identifier_def)

lemma parseTagAndLength_dns:
  assumes "n < 2 ^ 31"
  shows "parseTagAndLength (pre @ der_identifier 2 False 2 # der_definite_length n @ post) (length pre)
     = Inr (\<lparr> t_class = 2, t_tag = 2, t_length = n, t_isCompound = False \<rparr>,
            length pre + 1 + length (der_definite_length n))"
proof -
  have "parseLength ((pre @ [der_identifier 2 False 2]) @ der_definite_length n @ post)
          (length (pre @ [der_identifier 2 False 2]))
        = Inr (n, length (pre @ [der_identifier 2 False 2]) + length (der_definite_length n))"
    using assms by (rule parseLength_der)
  then show ?thesis
    by (simp add: parseTagAndLength_def parseTag_dns)
qed

lemma parseTagAndLength_sequence:
  assumes "n < 2 ^ 31"
  shows "parseTagAndLength (pre @ der_identifier 0 True 16 # der_definite_length n @ post) (length pre)
     = Inr (\<lparr> t_class = 0, t_tag = 16, t_length = n, t_isCompound = True \<rparr>,
            length pre + 1 + length (der_definite_length n))"
proof -
  have "parseLength ((pre @ [der_identifier 0 True 16]) @ der_definite_length n @ post)
          (length (pre @ [der_identifier 0 True 16]))
        = Inr (n, length (pre @ [der_identifier 0 True 16]) + length (der_definite_length n))"
    using assms by (rule parseLength_der)
  then show ?thesis
    by (simp add: parseTagAndLength_def parseTag_sequence)
qed

lemma length_der_element:
  "length (der_element cls c t content) = 1 + length (der_definite_length (length content)) + length content"
  by (simp add: der_element_def)

lemma parseField_RawValue_dns:
  assumes "length content < 2 ^ 31"
  shows "parseField_RawValue (pre @ der_element 2 False 2 content @ post) (length pre)
     = Inr (\<lparr> Class = 2, Tag = 2, IsCompound = False, Bytes = content,
               FullBytes = der_element 2 False 2 content \<rparr>,
            length pre + length (der_element 2 False 2 content))"
proof -
  define h where "h = der_identifier 2 False 2 # der_definite_length (length content)"
  have e: "der_element 2 False 2 content = h @ content"
    by (simp add: der_element_def h_def)
  have ptl: "parseTagAndLength (pre @ h @ content @ post) (length pre)
      = Inr (\<lparr> t_class = 2, t_tag = 2, t_length = length content, t_isCompound = False \<rparr>,
             length pre + length h)"
    using parseTagAndLength_dns [OF assms, of pre "content @ post"]
    by (simp add: h_def)
  have hpos: "0 < length h" by (simp add: h_def)
  have d: "drop (length pre + length h) (pre @ h @ content @ post) = content @ post"
    by (simp add: drop_append)
  show ?thesis
    using hpos
    by (simp add: parseField_RawValue_def Let_def e ptl invalidLength_def d)
qed

lemma parseField_RawValue_sequence:
  assumes "length content < 2 ^ 31"
  shows "parseField_RawValue (pre @ der_element 0 True 16 content @ post) (length pre)
     = Inr (\<lparr> Class = 0, Tag = 16, IsCompound = True, Bytes = content,
               FullBytes = der_element 0 True 16 content \<rparr>,
            length pre + length (der_element 0 True 16 content))"
proof -
  define h where "h = der_identifier 0 True 16 # der_definite_length (length content)"
  have e: "der_element 0 True 16 content = h @ content"
    by (simp add: der_element_def h_def)
  have ptl: "parseTagAndLength (pre @ h @ content @ post) (length pre)
      = Inr (\<lparr> t_class = 0, t_tag = 16, t_length = length content, t_isCompound = True \<rparr>,
             length pre + length h)"
    using parseTagAndLength_sequence [OF assms, of pre "content @ post"]
    by (simp add: h_def)
  have hpos: "0 < length h" by (simp add: h_def)
  have d: "drop (length pre + length h) (pre @ h @ content @ post) = content @ post"
    by (simp add: drop_append)
  show ?thesis
    using hpos
    by (simp add: parseField_RawValue_def Let_def e ptl invalidLength_def d)
qed

lemma countElements_dns:
  "\<forall>c \<in> set cs. length c < 2 ^ 31 \<Longrightarrow>
   countElements (pre @ concat (map (der_element 2 False 2) cs)) (length pre) k
     = Inr (k + length cs)"
proof (induction cs arbitrary: pre k)
  case Nil
  show ?case by (subst countElements.simps) simp
next
  case (Cons c cs)
  define h where "h = der_identifier 2 False 2 # der_definite_length (length c)"
  define post where "post = concat (map (der_element 2 False 2) cs)"
  have e: "der_element 2 False 2 c = h @ c"
    by (simp add: der_element_def h_def)
  from Cons.prems have c: "length c < 2 ^ 31" by simp
  have ptl: "parseTagAndLength (pre @ h @ c @ post) (length pre)
      = Inr (\<lparr> t_class = 2, t_tag = 2, t_length = length c, t_isCompound = False \<rparr>,
             length pre + length h)"
    using parseTagAndLength_dns [OF c, of pre "c @ post"]
    by (simp add: h_def)
  have hpos: "0 < length h" by (simp add: h_def)
  have "countElements ((pre @ h @ c) @ post) (length (pre @ h @ c)) (k + 1)
      = Inr (k + 1 + length cs)"
    unfolding post_def using Cons.prems by (intro Cons.IH) simp
  then have rec: "countElements (pre @ h @ c @ post) (length pre + length h + length c) (k + 1)
      = Inr (k + 1 + length cs)"
    by (simp add: add.assoc)
  have "countElements (pre @ h @ c @ post) (length pre) k = Inr (k + 1 + length cs)"
    using hpos rec by (subst countElements.simps) (simp add: ptl invalidLength_def)
  then show ?case
    by (simp add: e post_def)
qed

lemma parseFields_dns:
  "\<forall>c \<in> set cs. length c < 2 ^ 31 \<Longrightarrow>
   parseFields (pre @ concat (map (der_element 2 False 2) cs)) (length pre) (length cs)
     = Inr (map dnsRawValue cs)"
proof (induction cs arbitrary: pre)
  case Nil
  show ?case by simp
next
  case (Cons c cs)
  define post where "post = concat (map (der_element 2 False 2) cs)"
  from Cons.prems have c: "length c < 2 ^ 31" by simp
  have f: "parseField_RawValue (pre @ der_element 2 False 2 c @ post) (length pre)
      = Inr (dnsRawValue c, length pre + length (der_element 2 False 2 c))"
    using parseField_RawValue_dns [OF c, of pre post] by (simp add: dnsRawValue_def)
  have "parseFields ((pre @ der_element 2 False 2 c) @ post) (length (pre @ der_element 2 False 2 c))
          (length cs) = Inr (map dnsRawValue cs)"
    unfolding post_def using Cons.prems by (intro Cons.IH) simp
  then have rec: "parseFields (pre @ der_element 2 False 2 c @ post)
          (length pre + length (der_element 2 False 2 c)) (length cs) = Inr (map dnsRawValue cs)"
    by simp
  have "parseFields (pre @ der_element 2 False 2 c @ post) (length pre) (Suc (length cs))
      = Inr (dnsRawValue c # map dnsRawValue cs)"
    by (simp add: f rec)
  then show ?case by (simp add: post_def)
qed

lemma parseSequenceOf_dns:
  assumes "\<forall>c \<in> set cs. length c < 2 ^ 31"
  shows "parseSequenceOf_RawValue (concat (map (der_element 2 False 2) cs)) = Inr (map dnsRawValue cs)"
  using countElements_dns [OF assms, of "[]" 0] parseFields_dns [OF assms, of "[]"]
  by (simp add: parseSequenceOf_RawValue_def)

lemma length_le_concat: "c \<in> set cs \<Longrightarrow> length c \<le> length (concat cs)"
  by (induction cs) auto

lemma element_lengths:
  assumes "length (concat (map (der_element 2 False 2) cs)) < 2 ^ 31"
  shows "\<forall>c \<in> set cs. length c < 2 ^ 31"
proof
  fix c assume "c \<in> set cs"
  then have "der_element 2 False 2 c \<in> set (map (der_element 2 False 2) cs)" by simp
  then have "length (der_element 2 False 2 c) \<le> length (concat (map (der_element 2 False 2) cs))"
    by (rule length_le_concat)
  moreover have "length c \<le> length (der_element 2 False 2 c)"
    by (simp add: der_element_def)
  ultimately show "length c < 2 ^ 31" using assms by simp
qed

lemma Unmarshal_RawValues_sequence_of_dns:
  assumes "length (concat (map (der_element 2 False 2) cs)) < 2 ^ 31"
  shows "asn1_Unmarshal_RawValues (der_element 0 True 16 (concat (map (der_element 2 False 2) cs)))
     = Inr (map dnsRawValue cs, [])"
proof -
  define body where "body = concat (map (der_element 2 False 2) cs)"
  define h where "h = der_identifier 0 True 16 # der_definite_length (length body)"
  have e: "der_element 0 True 16 body = h @ body"
    by (simp add: der_element_def h_def)
  have b: "length body < 2 ^ 31" using assms by (simp add: body_def)
  have ptl: "parseTagAndLength (h @ body) 0
      = Inr (\<lparr> t_class = 0, t_tag = 16, t_length = length body, t_isCompound = True \<rparr>, length h)"
    using parseTagAndLength_sequence [OF b, of "[]" body] by (simp add: h_def)
  have seq: "parseSequenceOf_RawValue body = Inr (map dnsRawValue cs)"
    unfolding body_def using element_lengths [OF assms] by (rule parseSequenceOf_dns)
  have hpos: "h \<noteq> []" by (simp add: h_def)
  have "parseField_RawValues (h @ body) 0 = Inr (map dnsRawValue cs, length h + length body)"
    using hpos
    by (simp add: parseField_RawValues_def Let_def ptl invalidLength_def seq
        ClassUniversal_def TagSequence_def)
  then show ?thesis
    by (simp add: asn1_Unmarshal_RawValues_def e body_def [symmetric])
qed

lemma string_of_bytes_of_string: "string_of_bytes (bytes_of_string s) = s"
proof -
  have "char_of (unat (of_char c :: byte)) = c" for c
  proof -
    have "(of_char c :: byte) = of_nat (of_char c)" by (simp only: of_nat_of_char)
    then have "unat (of_char c :: byte) = (of_char c :: nat) mod 256"
      by (simp add: unat_of_nat)
    then show ?thesis by simp
  qed
  then show ?thesis
    by (simp add: string_of_bytes_def bytes_of_string_def comp_def)
qed

lemma collectDNS_dns:
  "collectDNS acc (map dnsRawValue (map bytes_of_string sans)) = acc @ sans"
  by (induction sans arbitrary: acc)
    (simp_all add: collectDNS_def dnsRawValue_def string_of_bytes_of_string)

lemma Unmarshal_RawValues_dns_first:
  assumes "length c < 2 ^ 31"
  shows "asn1_Unmarshal_RawValues (der_element 2 False 2 c @ post)
           = Inl (StructuralError ''tags do not match'')"
proof -
  define h where "h = der_identifier 2 False 2 # der_definite_length (length c)"
  have e: "der_element 2 False 2 c = h @ c"
    by (simp add: der_element_def h_def)
  have ptl: "parseTagAndLength (h @ c @ post) 0
      = Inr (\<lparr> t_class = 2, t_tag = 2, t_length = length c, t_isCompound = False \<rparr>, length h)"
    using parseTagAndLength_dns [OF assms, of "[]" "c @ post"] by (simp add: h_def)
  have hpos: "h \<noteq> []" by (simp add: h_def)
  have "parseField_RawValues (h @ c @ post) 0 = Inl (StructuralError ''tags do not match'')"
    using hpos by (simp add: parseField_RawValues_def Let_def ptl ClassUniversal_def)
  then show ?thesis
    by (simp add: asn1_Unmarshal_RawValues_def e)
qed

lemma Unmarshal_RawValue_sequence:
  assumes "length body < 2 ^ 31"
  shows "asn1_Unmarshal_RawValue (der_element 0 True 16 body)
     = Inr (\<lparr> Class = 0, Tag = 16, IsCompound = True, Bytes = body,
               FullBytes = der_element 0 True 16 body \<rparr>, [])"
  using parseField_RawValue_sequence [OF assms, of "[]" "[]"]
  by (simp add: asn1_Unmarshal_RawValue_def)

lemma extractSAN_generated:
  assumes "sans \<noteq> []"
    and "length (concat (map (\<lambda>san. der_element 2 False 2 (bytes_of_string san)) sans)) < 2 ^ 31"
  shows "extractSAN dnsNames
           \<lparr> ext_Id = [2, 5, 29, 17], ext_Critical = False,
             ext_Value = der_element 0 True 16
               (concat (map (\<lambda>san. der_element 2 False 2 (bytes_of_string san)) sans)) \<rparr>
         = dnsNames"
proof -
  define body where "body = concat (map (\<lambda>san. der_element 2 False 2 (bytes_of_string san)) sans)"
  from assms(1) obtain san rest where sans: "sans = san # rest" by (cases sans) auto
  have b: "body = concat (map (der_element 2 False 2) (map bytes_of_string sans))"
    by (simp add: body_def comp_def)
  have "length (bytes_of_string san) < 2 ^ 31"
    using element_lengths [of "map bytes_of_string sans"] assms(2) sans
    by (simp add: comp_def)
  then have inner: "asn1_Unmarshal_RawValues body = Inl (StructuralError ''tags do not match'')"
    unfolding body_def sans
    using Unmarshal_RawValues_dns_first [of "bytes_of_string san"] by simp
  have outer: "asn1_Unmarshal_RawValue (der_element 0 True 16 body)
     = Inr (\<lparr> Class = 0, Tag = 16, IsCompound = True, Bytes = body,
               FullBytes = der_element 0 True 16 body \<rparr>, [])"
    using assms(2) by (intro Unmarshal_RawValue_sequence) (simp add: body_def)
  show ?thesis
    unfolding body_def [symmetric]
    by (simp add: extractSAN_def outer inner ClassUniversal_def TagSequence_def)
qed

lemma generated_csr_no_names:
  assumes "sans \<noteq> []"
    and "length (concat (map (\<lambda>san. der_element 2 False 2 (bytes_of_string san)) sans)) < 2 ^ 31"
  shows "map_sum id csr_dnsNames (generatedCSR sbj sans) = Inr []"
  using assms(1) extractSAN_generated [OF assms, of "[]"]
  by (simp add: generatedCSR_def x509_CreateCertificateRequest_def csrTemplate_def sanExtension_eq
      csr_dnsNames_def)

text \<open>
  Read directly from the extension value, the library's sequence decoder followed by the
  decoder's own filter on class 2 and tag 2 gives back the SAN list.
\<close>

lemma direct_walk_roundtrip:
  assumes "length (concat (map (\<lambda>san. der_element 2 False 2 (bytes_of_string san)) sans)) < 2 ^ 31"
  shows "map_sum id (\<lambda>(rawValues, rest). (collectDNS [] rawValues, rest))
           (asn1_Unmarshal_RawValues (der_element 0 True 16
              (concat (map (\<lambda>san. der_element 2 False 2 (bytes_of_string san)) sans))))
         = Inr (sans, [])"
  using Unmarshal_RawValues_sequence_of_dns [of "map bytes_of_string sans"] assms
    collectDNS_dns [of "[]" sans]
  by (simp add: comp_def)

subsection \<open>Malformed and absent SAN extensions\<close>




text \<open>Every value the tool writes has the SAN shape.\<close>

lemma generated_value_sanShape:
  assumes "length (concat (map (\<lambda>san. der_element 2 False 2 (bytes_of_string san)) sans)) < 2 ^ 31"
  shows "sanShape (der_element 0 True 16
           (concat (map (\<lambda>san. der_element 2 False 2 (bytes_of_string san)) sans)))"
  using Unmarshal_RawValues_sequence_of_dns [of "map bytes_of_string sans"] assms
  by (simp add: sanShape_def comp_def list_all_iff dnsRawValue_def)

subsection \<open>SAN round trip through the request\<close>

text \<open>
  Claim C1 asks that decoding the request produced for a non-empty SAN list reports the
  same DNS names in the same order. The decoder does not do so: for the SAN list
  example.com, www.example.com its extraction from the generated request is empty. It
  hands the content of the sequence, which starts with the first DNS-name element, to the
  library's decoder for a slice, and that decoder asks for a sequence header
  (\<open>extractSAN_generated\<close> and \<open>generated_csr_no_names\<close> show this for every SAN list,
  \<open>direct_walk_roundtrip\<close> that the encoding itself reads back correctly).
\<close>

theorem san_roundtrip_lost:
  "map_sum id csr_dnsNames
     (generatedCSR (subj ''example.com'' [] [] [] [] []) [''example.com'', ''www.example.com''])
   = Inr []"
  by code_simp

subsection \<open>The SAN extension\<close>

text \<open>
  Claim C2. For every non-empty SAN list the request carries exactly one extension from
  the tool, with OID 2.5.29.17, whose value is the DER encoding of a universal constructed
  sequence (tag 16) holding, per SAN entry in order, one primitive element of class 2 and
  tag 2 whose content is the entry's bytes; below 2 GiB the library's decoder reads the
  value back as these raw values with nothing left over.
\<close>

theorem san_extension_encoding:
  assumes "sans \<noteq> []"
  shows "map_sum id csr_Extensions (generatedCSR sbj sans) =
     Inr [\<lparr> ext_Id = [2, 5, 29, 17], ext_Critical = False,
            ext_Value = der_element 0 True 16
              (concat (map (\<lambda>san. der_element 2 False 2 (bytes_of_string san)) sans)) \<rparr>] \<and>
   (length (concat (map (\<lambda>san. der_element 2 False 2 (bytes_of_string san)) sans)) < 2 ^ 31 \<longrightarrow>
    asn1_Unmarshal_RawValues (der_element 0 True 16
        (concat (map (\<lambda>san. der_element 2 False 2 (bytes_of_string san)) sans)))
      = Inr (map (\<lambda>san. \<lparr> Class = 2, Tag = 2, IsCompound = False, Bytes = bytes_of_string san,
                             FullBytes = der_element 2 False 2 (bytes_of_string san) \<rparr>) sans, []))"
proof -
  have "asn1_Unmarshal_RawValues (der_element 0 True 16
        (concat (map (\<lambda>san. der_element 2 False 2 (bytes_of_string san)) sans)))
      = Inr (map (\<lambda>san. \<lparr> Class = 2, Tag = 2, IsCompound = False, Bytes = bytes_of_string san,
                             FullBytes = der_element 2 False 2 (bytes_of_string san) \<rparr>) sans, [])"
    if "length (concat (map (\<lambda>san. der_element 2 False 2 (bytes_of_string san)) sans)) < 2 ^ 31"
    using Unmarshal_RawValues_sequence_of_dns [of "map bytes_of_string sans"] that
    by (simp add: comp_def dnsRawValue_def)
  with assms show ?thesis
    by (simp add: generatedCSR_def x509_CreateCertificateRequest_def csrTemplate_def sanExtension_eq)
qed

theorem san_extension_encoding_witness:
  "map_sum id csr_Extensions (generatedCSR emptyName [''example.com'', ''www.example.com'']) =
     Inr [\<lparr> ext_Id = [2, 5, 29, 17], ext_Critical = False,
            ext_Value = der_element 0 True 16
              (concat (map (\<lambda>san. der_element 2 False 2 (bytes_of_string san))
                 [''example.com'', ''www.example.com''])) \<rparr>] \<and>
   asn1_Unmarshal_RawValues (der_element 0 True 16
        (concat (map (\<lambda>san. der_element 2 False 2 (bytes_of_string san))
           [''example.com'', ''www.example.com''])))
      = Inr (map (\<lambda>san. \<lparr> Class = 2, Tag = 2, IsCompound = False, Bytes = bytes_of_string san,
                             FullBytes = der_element 2 False 2 (bytes_of_string san) \<rparr>)
               [''example.com'', ''www.example.com''], []) \<and>
   der_element 0 True 16
     (concat (map (\<lambda>san. der_element 2 False 2 (bytes_of_string san))
        [''example.com'', ''www.example.com'']))
   = [0x30, 0x1e, 0x82, 0x0b, 0x65, 0x78, 0x61, 0x6d, 0x70, 0x6c, 0x65, 0x2e, 0x63, 0x6f, 0x6d,
      0x82, 0x0f, 0x77, 0x77, 0x77, 0x2e, 0x65, 0x78, 0x61, 0x6d, 0x70, 0x6c, 0x65, 0x2e, 0x63,
      0x6f, 0x6d]"
proof -
  have ne: "[''example.com'', ''www.example.com''] \<noteq> []" by simp
  have "length (concat (map (\<lambda>san. der_element 2 False 2 (bytes_of_string san))
                 [''example.com'', ''www.example.com''])) = 30"
    by code_simp
  then have bound: "length (concat (map (\<lambda>san. der_element 2 False 2 (bytes_of_string san))
                 [''example.com'', ''www.example.com''])) < 2 ^ 31"
    by simp
  from san_extension_encoding [OF ne, of emptyName] bound der_element_example
  show ?thesis by blast
qed

subsection \<open>DNS names of the self-signed certificate\<close>

text \<open>
  Claim C3. For every SAN list \<open>sans\<close> and common name \<open>cn\<close>, the DNS names of the
  self-signed certificate are \<open>sans\<close> followed by \<open>cn\<close> if and only if \<open>cn\<close>
  contains a dot and is not an element of \<open>sans\<close>; otherwise they are \<open>sans\<close>.
\<close>

theorem selfSigned_DNSNames:
  "(DNSNames (selfSignedCertificate sn sbj now d sans cn) = sans @ [cn]
      \<longleftrightarrow> CHR ''.'' \<in> set cn \<and> cn \<notin> set sans) \<and>
   (\<not> (CHR ''.'' \<in> set cn \<and> cn \<notin> set sans)
      \<longrightarrow> DNSNames (selfSignedCertificate sn sbj now d sans cn) = sans)"
  by (simp add: selfSignedCertificate_def x509_CreateCertificate_def Let_def certTemplate_DNSNames)

theorem selfSigned_DNSNames_witness:
  "DNSNames (selfSignedCertificate 1 emptyName 0 730 [''example.com'', ''www.example.com''] ''example.com'')
     = [''example.com'', ''www.example.com''] \<and>
   DNSNames (selfSignedCertificate 1 emptyName 0 730 [''www.example.com''] ''example.com'')
     = [''www.example.com'', ''example.com'']"
  using selfSigned_DNSNames [of 1 emptyName 0 730 "[''example.com'', ''www.example.com'']" "''example.com''"]
    selfSigned_DNSNames [of 1 emptyName 0 730 "[''www.example.com'']" "''example.com''"]
  by simp

subsection \<open>Key size\<close>




subsection \<open>Distinguished-name formatting\<close>

text \<open>
  Claim C5, as amended. \<^verbatim>\<open>formatName\<close> joins with a comma and a space, in this
  order, the common name, each organization, each organizational unit, each country,
  each province and each locality. The common name is left out when it is the empty
  string and a list field is left out when it has no value; a value that is the empty
  string is still rendered.
\<close>

theorem formatName_order:
  "formatName name = strings_Join
     ((if CommonName name = [] then [] else [''CN='' @ CommonName name]) @
      map ((@) ''O='') (Organization name) @
      map ((@) ''OU='') (OrganizationalUnit name) @
      map ((@) ''C='') (Country name) @
      map ((@) ''ST='') (Province name) @
      map ((@) ''L='') (Locality name)) '', '' \<and>
   (CommonName name = [] \<longrightarrow> \<not> (\<exists>p \<in> set (formatName_parts name). prefix ''CN='' p)) \<and>
   (Organization name = [] \<longrightarrow> \<not> (\<exists>p \<in> set (formatName_parts name). prefix ''O='' p)) \<and>
   (OrganizationalUnit name = [] \<longrightarrow> \<not> (\<exists>p \<in> set (formatName_parts name). prefix ''OU='' p)) \<and>
   (Country name = [] \<longrightarrow> \<not> (\<exists>p \<in> set (formatName_parts name). prefix ''C='' p)) \<and>
   (Province name = [] \<longrightarrow> \<not> (\<exists>p \<in> set (formatName_parts name). prefix ''ST='' p)) \<and>
   (Locality name = [] \<longrightarrow> \<not> (\<exists>p \<in> set (formatName_parts name). prefix ''L='' p))"
  unfolding formatName_def formatName_parts_eq
  by auto

theorem formatName_order_witness:
  "formatName \<lparr> CommonName = [], Organization = [''Acme'', ''Acme Labs''], OrganizationalUnit = [],
       Country = [''US''], Province = [], Locality = [''Tulsa''] \<rparr>
     = ''O=Acme, O=Acme Labs, C=US, L=Tulsa''"
  using formatName_order [of "\<lparr> CommonName = [], Organization = [''Acme'', ''Acme Labs''],
       OrganizationalUnit = [], Country = [''US''], Province = [], Locality = [''Tulsa''] \<rparr>"]
  by simp

text \<open>
  The subject that \<^verbatim>\<open>main\<close> assembles when only the common name is given holds one
  empty string in every list field, and each of them is rendered as an empty part.
\<close>

theorem formatName_blank_counterexample:
  "formatName (subj ''example.com'' [] [] [] [] []) = ''CN=example.com, O=, OU=, C=, ST=, L='' \<and>
   ''O='' \<in> set (formatName_parts (subj ''example.com'' [] [] [] [] []))"
  by (simp add: formatName_def formatName_parts_def subj_def)

subsection \<open>Fields of the self-signed certificate\<close>

text \<open>
  Claim C6. Every self-signed certificate of the tool has its subject as issuer, so the
  decoder's self-signed flag is true whatever the rendering of names; its key usage is
  digital signature plus key encipherment and its extended key usage is the single entry
  server authentication, and the decoder prints exactly these.
\<close>

theorem selfSigned_fields:
  "Subject (selfSignedCertificate sn sbj now d sans cn) = Issuer (selfSignedCertificate sn sbj now d sans cn) \<and>
   isSelfSigned name_String (selfSignedCertificate sn sbj now d sans cn) \<and>
   KeyUsage (selfSignedCertificate sn sbj now d sans cn) = KeyUsageDigitalSignature + KeyUsageKeyEncipherment \<and>
   ExtKeyUsage (selfSignedCertificate sn sbj now d sans cn) = [ExtKeyUsageServerAuth] \<and>
   keyUsage_lines (KeyUsage (selfSignedCertificate sn sbj now d sans cn)) = [''Digital Signature'', ''Key Encipherment''] \<and>
   extKeyUsage_lines (ExtKeyUsage (selfSignedCertificate sn sbj now d sans cn)) = [''Server Authentication'']"
  by (simp add: selfSignedCertificate_def x509_CreateCertificate_def certTemplate_def Let_def
      isSelfSigned_def keyUsage_lines_def extKeyUsage_lines_def
      KeyUsageDigitalSignature_def KeyUsageContentCommitment_def KeyUsageKeyEncipherment_def
      KeyUsageDataEncipherment_def KeyUsageKeyAgreement_def KeyUsageCertSign_def
      KeyUsageCRLSign_def KeyUsageEncipherOnly_def KeyUsageDecipherOnly_def)

subsection \<open>Validity window\<close>

text \<open>
  Claim C9, as amended. For every validity period of \<open>d\<close> days with
  \<open>-106751 \<le> d \<le> 106751\<close>, the certificate's \<^verbatim>\<open>NotAfter\<close> is its
  \<^verbatim>\<open>NotBefore\<close> plus exactly \<open>d\<close> times 24 hours, in nanoseconds; for no other
  \<open>d\<close> is it so.
\<close>

theorem notAfter_days:
  "(NotAfter (selfSignedCertificate sn sbj now d sans cn)
     = NotBefore (selfSignedCertificate sn sbj now d sans cn) + d * (24 * 3600000000000))
   \<longleftrightarrow> - 106751 \<le> d \<and> d \<le> 106751"
proof (cases "- 106751 \<le> d \<and> d \<le> 106751")
  case True
  then show ?thesis
    by (simp add: selfSignedCertificate_def x509_CreateCertificate_def certTemplate_def Let_def
        notAfter_of_def Time_Add_def validity_duration_exact)
next
  case False
  then have "d < - 106751 \<or> 106751 < d" by auto
  from validity_duration_inexact [OF this] False show ?thesis
    by (simp add: selfSignedCertificate_def x509_CreateCertificate_def certTemplate_def Let_def
        notAfter_of_def Time_Add_def)
qed

theorem notAfter_days_witness:
  "NotAfter (selfSignedCertificate 1 emptyName 0 730 [] [])
     = NotBefore (selfSignedCertificate 1 emptyName 0 730 [] []) + 730 * (24 * 3600000000000)"
  using notAfter_days [of 1 emptyName 0 730 "[]" "[]"] by simp

text \<open>
  At 106752 days the product no longer fits 64 bits: it wraps to a negative duration and
  the certificate expires before it starts.
\<close>

theorem notAfter_overflow_counterexample:
  "NotAfter (selfSignedCertificate 1 emptyName 0 106752 [] [])
     \<noteq> NotBefore (selfSignedCertificate 1 emptyName 0 106752 [] []) + 106752 * (24 * 3600000000000) \<and>
   NotAfter (selfSignedCertificate 1 emptyName 0 106752 [] [])
     < NotBefore (selfSignedCertificate 1 emptyName 0 106752 [] [])"
  by (simp add: selfSignedCertificate_def x509_CreateCertificate_def certTemplate_def Let_def
      notAfter_of_def Time_Add_def validity_duration_def Hour_def)

subsection \<open>Validation of the validity period\<close>

text \<open>
  Claim C10, as amended. With \<^verbatim>\<open>-s\<close> the value of \<^verbatim>\<open>-days\<close> is used as it is,
  while a non-empty answer at the prompt always results in a positive number of days (an
  empty answer keeps the flag's value); a flag value between -106751 and 0 gives a
  certificate whose \<^verbatim>\<open>NotAfter\<close> is at or before its \<^verbatim>\<open>NotBefore\<close>.
\<close>

theorem days_flag_unvalidated:
  "validity_input True daysFlag selfSigned validDaysStr = (True, daysFlag) \<and>
   (validDaysStr \<noteq> [] \<longrightarrow> 0 < snd (validity_input False daysFlag ''y'' validDaysStr)) \<and>
   validity_input False daysFlag ''y'' [] = (True, daysFlag) \<and>
   (- 106751 \<le> daysFlag \<and> daysFlag \<le> 0 \<longrightarrow>
      NotAfter (selfSignedCertificate sn sbj now
                 (snd (validity_input True daysFlag selfSigned validDaysStr)) sans cn)
        \<le> NotBefore (selfSignedCertificate sn sbj now
                 (snd (validity_input True daysFlag selfSigned validDaysStr)) sans cn))"
proof -
  have "NotAfter (selfSignedCertificate sn sbj now daysFlag sans cn)
        \<le> NotBefore (selfSignedCertificate sn sbj now daysFlag sans cn)"
    if "- 106751 \<le> daysFlag" "daysFlag \<le> 0"
  proof -
    have "sint (validity_duration daysFlag) = daysFlag * (24 * 3600000000000)"
      using that by (intro validity_duration_exact) simp_all
    then have "sint (validity_duration daysFlag) \<le> 0"
      using that by (simp add: mult_le_0_iff)
    then show ?thesis
      by (simp add: selfSignedCertificate_def x509_CreateCertificate_def certTemplate_def Let_def
          notAfter_of_def Time_Add_def)
  qed
  moreover have "validity_input False daysFlag ''y'' [] = (True, daysFlag)"
    by (simp add: validity_input_def)
  ultimately show ?thesis
    by (simp add: validity_input_flag validity_input_prompt_positive)
qed

theorem days_flag_unvalidated_witness:
  "validity_input True (- 5) [] ''-3'' = (True, - 5) \<and>
   0 < snd (validity_input False (- 5) ''y'' ''-3'') \<and>
   validity_input False (- 5) ''y'' [] = (True, - 5) \<and>
   NotAfter (selfSignedCertificate 1 emptyName 0 (snd (validity_input True (- 5) [] ''-3'')) [] [])
     \<le> NotBefore (selfSignedCertificate 1 emptyName 0 (snd (validity_input True (- 5) [] ''-3'')) [] [])"
  using days_flag_unvalidated [of "- 5" "[]" "''-3''" 1 emptyName 0 "[]" "[]"]
  by (simp add: validity_input_flag)

text \<open>
  At \<^verbatim>\<open>-days=-106752\<close> the product wraps to a positive duration: the negative value
  is accepted and the certificate is valid for about 292 years.
\<close>

theorem days_flag_wrap_counterexample:
  "validity_input True (- 106752) [] [] = (True, - 106752) \<and>
   NotBefore (selfSignedCertificate 1 emptyName 0 (snd (validity_input True (- 106752) [] [])) [] [])
     < NotAfter (selfSignedCertificate 1 emptyName 0 (snd (validity_input True (- 106752) [] [])) [] [])"
  by (simp add: validity_input_def selfSignedCertificate_def x509_CreateCertificate_def
      certTemplate_def Let_def notAfter_of_def Time_Add_def validity_duration_def Hour_def)

subsection \<open>Errors of the decode path\<close>

text \<open>
  Claim C7. \<^verbatim>\<open>decodeFile\<close> returns an error if and only if the file cannot be read,
  or its data holds no PEM block, or the first block's bytes do not parse as what the
  block type declares, or the block is a PKCS#8 key that is not an RSA key, or the block
  type is none of CERTIFICATE, CERTIFICATE REQUEST, RSA PRIVATE KEY and PRIVATE KEY; in
  every other case it returns \<^verbatim>\<open>nil\<close>.
\<close>

theorem decodeFile_error_iff:
  "isl (decodeFile lib filePath) \<longleftrightarrow>
     isl (os_ReadFile lib filePath) \<or>
     (\<exists>data. os_ReadFile lib filePath = Inr data \<and>
        (pem_Decode lib data = None \<or>
         (\<exists>block. pem_Decode lib data = Some block \<and>
            ((pem_Type block = ''CERTIFICATE'' \<and>
                isl (x509_ParseCertificate lib (pem_Bytes block))) \<or>
             (pem_Type block = ''CERTIFICATE REQUEST'' \<and>
                isl (x509_ParseCertificateRequest lib (pem_Bytes block))) \<or>
             (pem_Type block = ''RSA PRIVATE KEY'' \<and>
                isl (x509_ParsePKCS1PrivateKey lib (pem_Bytes block))) \<or>
             (pem_Type block = ''PRIVATE KEY'' \<and>
                isl (x509_ParsePKCS8PrivateKey lib (pem_Bytes block))) \<or>
             (pem_Type block = ''PRIVATE KEY'' \<and>
                (\<exists>key. x509_ParsePKCS8PrivateKey lib (pem_Bytes block) = Inr key \<and>
                       (\<forall>rsaKey. key \<noteq> RSAKey rsaKey))) \<or>
             pem_Type block \<notin> {''CERTIFICATE'', ''CERTIFICATE REQUEST'', ''RSA PRIVATE KEY'',
                                  ''PRIVATE KEY''}))))"
proof (cases "os_ReadFile lib filePath")
  case (Inl err)
  then show ?thesis by (simp add: decodeFile_def)
next
  case (Inr data)
  show ?thesis
  proof (cases "pem_Decode lib data")
    case None
    with Inr show ?thesis by (simp add: decodeFile_def)
  next
    case (Some block)
    consider (cert) "pem_Type block = ''CERTIFICATE''"
      | (csr) "pem_Type block = ''CERTIFICATE REQUEST''"
      | (rsa) "pem_Type block = ''RSA PRIVATE KEY''"
      | (p8) "pem_Type block = ''PRIVATE KEY''"
      | (other) "pem_Type block \<notin> {''CERTIFICATE'', ''CERTIFICATE REQUEST'', ''RSA PRIVATE KEY'',
                                  ''PRIVATE KEY''}"
      by auto
    then show ?thesis
    proof cases
      case cert
      with Inr Some show ?thesis
        by (cases "x509_ParseCertificate lib (pem_Bytes block)") (simp_all add: decodeFile_def)
    next
      case csr
      with Inr Some show ?thesis
        by (cases "x509_ParseCertificateRequest lib (pem_Bytes block)") (simp_all add: decodeFile_def)
    next
      case rsa
      with Inr Some show ?thesis
        by (cases "x509_ParsePKCS1PrivateKey lib (pem_Bytes block)") (simp_all add: decodeFile_def)
    next
      case p8
      show ?thesis
      proof (cases "x509_ParsePKCS8PrivateKey lib (pem_Bytes block)")
        case (Inl err)
        with Inr Some p8 show ?thesis by (simp add: decodeFile_def)
      next
        case r: (Inr key)
        with Inr Some p8 show ?thesis
          by (cases key) (simp_all add: decodeFile_def)
      qed
    next
      case other
      with Inr Some show ?thesis by (simp add: decodeFile_def)
    qed
  qed
qed

theorem decodeFile_error_iff_witness:
  "isl (decodeFile sampleLibrary ''ec.key'') \<and>
   isl (decodeFile sampleLibrary ''missing.pem'') \<and>
   \<not> isl (decodeFile sampleLibrary ''rsa.key'')"
  using decodeFile_error_iff [of sampleLibrary "''ec.key''"]
    decodeFile_error_iff [of sampleLibrary "''missing.pem''"]
    decodeFile_error_iff [of sampleLibrary "''rsa.key''"]
  by (simp add: sampleLibrary_def)

subsection \<open>Tolerance of the SAN extraction\<close>




end
